theory Spec2Isabelle
  imports
    Main
    "HOL-Library.Signed_Division"
    "HOL-Library.Multiset"
    "HOL-Library.Char_ord"
    "HOL-Library.List_Lexorder"
begin

section \<open>Badge rotator: the three program variants\<close>

text \<open>
  The repository holds three versions of one Go program:
  \<^item> \<open>main1\<close>: the first file of \<^verbatim>\<open>src/main.go\<close> (lines 1-138);
  \<^item> \<open>main2\<close>: the second file of \<^verbatim>\<open>src/main.go\<close> (lines 139-299), which caps the
    slot at \<^verbatim>\<open>numBadgeSlots = 3\<close>;
  \<^item> \<open>vercel\<close>: \<^verbatim>\<open>src/unnamed/part_000\<close>, with the serverless entry point
    \<^verbatim>\<open>Handler\<close> and the handler \<^verbatim>\<open>badgeHandlerInternal\<close>.

  Go's \<^verbatim>\<open>int\<close> and \<^verbatim>\<open>int64\<close> values are modelled by \<open>int\<close>; the only arithmetic
  on them is \<^verbatim>\<open>slot - 1\<close> with \<^verbatim>\<open>slot >= 1\<close>, a remainder and a division by 2, none of
  which can leave the 64-bit range. Positions in slices are \<open>nat\<close>. A run-time panic is a
  value of type \<open>panic\<close>.
\<close>

subsection \<open>Go primitives\<close>

datatype panic = IndexOutOfRange | DivideByZero

text \<open>Slice indexing \<^verbatim>\<open>xs[i]\<close> with Go's bounds check.\<close>

definition index :: "'a list \<Rightarrow> int \<Rightarrow> panic + 'a" where
  "index xs i =
     (if 0 \<le> i \<and> i < int (length xs) then Inr (xs ! nat i) else Inl IndexOutOfRange)"

text \<open>Go's \<^verbatim>\<open>a % b\<close> on integers: the remainder of the truncating division; it panics
  when \<open>b\<close> is zero.\<close>

definition go_rem :: "int \<Rightarrow> int \<Rightarrow> panic + int" where
  "go_rem a b = (if b = 0 then Inl DivideByZero else Inr (a smod b))"

text \<open>The closure given to \<^verbatim>\<open>Shuffle\<close>:
  \<^verbatim>\<open>tempIndices[i], tempIndices[j] = tempIndices[j], tempIndices[i]\<close>.\<close>

definition swap :: "nat list \<Rightarrow> nat \<Rightarrow> nat \<Rightarrow> panic + nat list" where
  "swap xs i j =
     (if i < length xs \<and> j < length xs then Inr (xs[i := xs ! j, j := xs ! i])
      else Inl IndexOutOfRange)"

subsection \<open>The random source (\<^verbatim>\<open>math/rand\<close>)\<close>

text \<open>
  \<^verbatim>\<open>math/rand\<close> belongs to Go's standard library, not to the repository, so the generator
  is a parameter of the model: \<open>newSource\<close> is \<^verbatim>\<open>rand.New(rand.NewSource(seed))\<close>, and
  \<open>int31n\<close>, \<open>int63n\<close> draw a number below a bound and advance the generator state.
  The one documented fact of the library that is used is that a draw below \<open>n\<close> lies in
  \<open>[0, n)\<close>; \<open>draw\<close> builds it in by reducing the raw value modulo the bound, which changes
  no generator that respects the contract.
\<close>

record 's rng =
  newSource :: "int \<Rightarrow> 's"
  int31n :: "'s \<Rightarrow> nat \<Rightarrow> nat \<times> 's"
  int63n :: "'s \<Rightarrow> nat \<Rightarrow> nat \<times> 's"

text \<open>The draw of one loop step of \<^verbatim>\<open>Shuffle\<close> at position \<open>i\<close>: \<^verbatim>\<open>r.Int63n(i+1)\<close>
  while \<^verbatim>\<open>i > 1<<31-1-1\<close>, \<^verbatim>\<open>r.int31n(i+1)\<close> afterwards.\<close>

definition draw :: "'s rng \<Rightarrow> 's \<Rightarrow> nat \<Rightarrow> nat \<times> 's" where
  "draw g st i =
     (let (v, st') = (if i > 2 ^ 31 - 1 - 1 then int63n g st (i + 1) else int31n g st (i + 1))
      in (v mod (i + 1), st'))"

text \<open>
  \<^verbatim>\<open>(*Rand).Shuffle(n, swap)\<close>, a Fisher-Yates shuffle:
  \<^verbatim>\<open>for i := n - 1; i > 0; i-- { j := draw(i + 1); swap(i, j) }\<close>.
  \<open>shuffle_from g i st xs\<close> is the loop from position \<open>i\<close> downwards.
\<close>

fun shuffle_from :: "'s rng \<Rightarrow> nat \<Rightarrow> 's \<Rightarrow> nat list \<Rightarrow> panic + nat list" where
  "shuffle_from g 0 st xs = Inr xs"
| "shuffle_from g (Suc k) st xs =
     (let (j, st') = draw g st (Suc k)
      in case swap xs (Suc k) j of
           Inl p \<Rightarrow> Inl p
         | Inr xs' \<Rightarrow> shuffle_from g k st' xs')"

definition Shuffle :: "'s rng \<Rightarrow> int \<Rightarrow> nat \<Rightarrow> nat list \<Rightarrow> panic + nat list" where
  "Shuffle g seed n xs = shuffle_from g (n - 1) (newSource g seed) xs"

text \<open>A small linear congruential generator (modulo 16, full period), used to run the
  model on concrete requests.\<close>

definition lcg_step :: "nat \<Rightarrow> nat" where
  "lcg_step s = (5 * s + 3) mod 16"

definition lcg :: "nat rng" where
  "lcg = \<lparr> newSource = (\<lambda>seed. nat (\<bar>seed\<bar> mod 16)),
           int31n = (\<lambda>s n. (lcg_step s, lcg_step s)),
           int63n = (\<lambda>s n. (lcg_step s, lcg_step s)) \<rparr>"

subsection \<open>Responses and log\<close>

datatype os_error = NotExist | Permission | OtherError

datatype log_event =
    LogDiscovering
  | LogAccessError os_error
  | LogDiscoveryError os_error
  | LogDiscovered nat "string list"
  | LogNoneFound
  | LogNoBadges
  | LogCopiedEmpty
  | LogInvalidSlot string
  | LogEmptyIndices
  | LogFallbackWarning
  | LogSelectError
  | LogServing int int string
  | LogFileNotFound string

text \<open>What a handler writes: \<^verbatim>\<open>http.Error(w, msg, code)\<close>, the file streamed by
  \<^verbatim>\<open>http.ServeFile\<close> with the headers set before, or the text of the root route.\<close>

datatype response =
    HttpError nat string
  | Streamed "(string \<times> string) list" string
  | PlainText string

subsection \<open>Slot selection\<close>

text \<open>
  \<^verbatim>\<open>src/main.go\<close> lines 89-108 (\<open>main1\<close>): the index range, its shuffle, the effective
  slot index, the pick, and the defensive branches. The result is a panic, or the log
  written with either the error response or the selected file name.
\<close>

definition select_main1 ::
  "'s rng \<Rightarrow> string list \<Rightarrow> int \<Rightarrow> int \<Rightarrow> panic + (log_event list \<times> (response + string))" where
  "select_main1 g currentAvailableBadges baseSeed slot =
     (let tempIndices0 = [0..<length currentAvailableBadges] in
      case Shuffle g baseSeed (length tempIndices0) tempIndices0 of
        Inl p \<Rightarrow> Inl p
      | Inr tempIndices \<Rightarrow>
          (case go_rem (slot - 1) (int (length tempIndices)) of
             Inl p \<Rightarrow> Inl p
           | Inr effectiveSlotIndex \<Rightarrow>
               if effectiveSlotIndex < int (length tempIndices) then
                 (case index tempIndices effectiveSlotIndex of
                    Inl p \<Rightarrow> Inl p
                  | Inr k \<Rightarrow>
                      (case index currentAvailableBadges (int k) of
                         Inl p \<Rightarrow> Inl p
                       | Inr selectedFilename \<Rightarrow> Inr ([], Inr selectedFilename)))
               else if length currentAvailableBadges > 0 then
                 (case index currentAvailableBadges 0 of
                    Inl p \<Rightarrow> Inl p
                  | Inr selectedFilename \<Rightarrow>
                      Inr ([LogFallbackWarning], Inr selectedFilename))
               else Inr ([LogSelectError], Inl (HttpError 500 ''Error selecting badge''))))"

text \<open>\<^verbatim>\<open>src/main.go\<close> lines 244-266 (\<open>main2\<close>): the same statements.\<close>

definition select_main2 ::
  "'s rng \<Rightarrow> string list \<Rightarrow> int \<Rightarrow> int \<Rightarrow> panic + (log_event list \<times> (response + string))" where
  "select_main2 g currentAvailableBadges baseSeed slot =
     (let tempIndices0 = [0..<length currentAvailableBadges] in
      case Shuffle g baseSeed (length tempIndices0) tempIndices0 of
        Inl p \<Rightarrow> Inl p
      | Inr tempIndices \<Rightarrow>
          (case go_rem (slot - 1) (int (length tempIndices)) of
             Inl p \<Rightarrow> Inl p
           | Inr effectiveSlotIndex \<Rightarrow>
               if effectiveSlotIndex < int (length tempIndices) then
                 (case index tempIndices effectiveSlotIndex of
                    Inl p \<Rightarrow> Inl p
                  | Inr k \<Rightarrow>
                      (case index currentAvailableBadges (int k) of
                         Inl p \<Rightarrow> Inl p
                       | Inr selectedFilename \<Rightarrow> Inr ([], Inr selectedFilename)))
               else if length currentAvailableBadges > 0 then
                 (case index currentAvailableBadges 0 of
                    Inl p \<Rightarrow> Inl p
                  | Inr selectedFilename \<Rightarrow>
                      Inr ([LogFallbackWarning], Inr selectedFilename))
               else Inr ([LogSelectError], Inl (HttpError 500 ''Error selecting badge''))))"

text \<open>
  \<^verbatim>\<open>src/unnamed/part_000\<close> lines 108-137 (\<open>vercel\<close>): the remainder is taken only when
  the shuffled slice is not empty; otherwise the handler answers 500.
\<close>

definition select_vercel ::
  "'s rng \<Rightarrow> string list \<Rightarrow> int \<Rightarrow> int \<Rightarrow> panic + (log_event list \<times> (response + string))" where
  "select_vercel g localBadgeFilesList baseSeed slot =
     (let tempIndices0 = [0..<length localBadgeFilesList] in
      case Shuffle g baseSeed (length tempIndices0) tempIndices0 of
        Inl p \<Rightarrow> Inl p
      | Inr tempIndices \<Rightarrow>
          if length tempIndices > 0 then
            (case go_rem (slot - 1) (int (length tempIndices)) of
               Inl p \<Rightarrow> Inl p
             | Inr effectiveSlotIndex \<Rightarrow>
                 if effectiveSlotIndex < int (length tempIndices) then
                   (case index tempIndices effectiveSlotIndex of
                      Inl p \<Rightarrow> Inl p
                    | Inr k \<Rightarrow>
                        (case index localBadgeFilesList (int k) of
                           Inl p \<Rightarrow> Inl p
                         | Inr selectedFilename \<Rightarrow> Inr ([], Inr selectedFilename)))
                 else if length localBadgeFilesList > 0 then
                   (case index localBadgeFilesList 0 of
                      Inl p \<Rightarrow> Inl p
                    | Inr selectedFilename \<Rightarrow>
                        Inr ([LogFallbackWarning], Inr selectedFilename))
                 else Inr ([LogSelectError], Inl (HttpError 500 ''Error selecting badge'')))
          else Inr ([LogEmptyIndices],
                    Inl (HttpError 500 ''Error selecting badge (empty internal list)'')))"

subsection \<open>Strings and the slot parameter\<close>

text \<open>
  File names are byte strings. \<^verbatim>\<open>strings.ToLower\<close> is modelled on ASCII letters, the
  only ones that occur in the two suffixes tested; \<^verbatim>\<open>strings.HasSuffix\<close> is Go's
  \<^verbatim>\<open>len(s) >= len(suffix) && s[len(s)-len(suffix):] == suffix\<close>.
\<close>

definition toLowerChar :: "char \<Rightarrow> char" where
  "toLowerChar c =
     (if CHR ''A'' \<le> c \<and> c \<le> CHR ''Z'' then char_of (of_char c + (32::nat)) else c)"

definition ToLower :: "string \<Rightarrow> string" where
  "ToLower s = map toLowerChar s"

definition HasSuffix :: "string \<Rightarrow> string \<Rightarrow> bool" where
  "HasSuffix s suffix =
     (length s \<ge> length suffix \<and> drop (length s - length suffix) s = suffix)"

text \<open>
  \<^verbatim>\<open>strconv.Atoi\<close> (standard library) on a 64-bit platform: an optional sign, then one
  or more decimal digits and nothing else; a value outside the \<^verbatim>\<open>int\<close> range is an
  error as well. The handlers only test \<^verbatim>\<open>err != nil\<close>, so one error value stands for
  every \<^verbatim>\<open>*NumError\<close>.
\<close>

datatype atoi_error = NumError

definition isDigit :: "char \<Rightarrow> bool" where
  "isDigit c = (CHR ''0'' \<le> c \<and> c \<le> CHR ''9'')"

fun digitsValue :: "int \<Rightarrow> string \<Rightarrow> int" where
  "digitsValue n [] = n"
| "digitsValue n (c # cs) = digitsValue (n * 10 + (int (of_char c) - 48)) cs"

definition Atoi :: "string \<Rightarrow> atoi_error + int" where
  "Atoi s =
     (let neg = (s \<noteq> [] \<and> hd s = CHR ''-'');
          body = (if s \<noteq> [] \<and> (hd s = CHR ''-'' \<or> hd s = CHR ''+'') then tl s else s)
      in if body = [] \<or> \<not> list_all isDigit body then Inl NumError
         else let n = (if neg then - digitsValue 0 body else digitsValue 0 body)
              in if n < - (2 ^ 63) \<or> n > 2 ^ 63 - 1 then Inl NumError else Inr n)"

text \<open>\<^verbatim>\<open>r.URL.Query().Get("slot")\<close>: the value of the parameter, or the empty string
  when the request has none.\<close>

definition queryGet :: "string option \<Rightarrow> string" where
  "queryGet q = (case q of None \<Rightarrow> [] | Some v \<Rightarrow> v)"

definition numBadgeSlots :: int where
  "numBadgeSlots = 3"

text \<open>\<open>main1\<close>, lines 85-88, and \<open>vercel\<close>, lines 103-106:
  \<^verbatim>\<open>if err != nil || slot < 1 { slot = 1 }\<close>.\<close>

definition normalizeSlot_main1 :: "atoi_error + int \<Rightarrow> int" where
  "normalizeSlot_main1 r = (case r of Inl err \<Rightarrow> 1 | Inr slot \<Rightarrow> if slot < 1 then 1 else slot)"

definition normalizeSlot_vercel :: "atoi_error + int \<Rightarrow> int" where
  "normalizeSlot_vercel r = (case r of Inl err \<Rightarrow> 1 | Inr slot \<Rightarrow> if slot < 1 then 1 else slot)"

text \<open>\<open>main2\<close>, lines 238-242:
  \<^verbatim>\<open>if err != nil || slot < 1 || slot > numBadgeSlots { log...; slot = 1 }\<close>.\<close>

definition normalizeSlot_main2 :: "string \<Rightarrow> atoi_error + int \<Rightarrow> log_event list \<times> int" where
  "normalizeSlot_main2 slotStr r =
     (case r of
        Inl err \<Rightarrow> ([LogInvalidSlot slotStr], 1)
      | Inr slot \<Rightarrow>
          if slot < 1 \<or> slot > numBadgeSlots then ([LogInvalidSlot slotStr], 1) else ([], slot))"

subsection \<open>The time window\<close>

text \<open>\<^verbatim>\<open>baseSeed := time.Now().Unix() / int64(timeWindowSeconds)\<close> with
  \<^verbatim>\<open>timeWindowSeconds := 2\<close>; Go's integer division truncates towards zero.\<close>

definition timeWindowSeconds :: int where
  "timeWindowSeconds = 2"

definition baseSeedOf :: "int \<Rightarrow> int" where
  "baseSeedOf unixNow = unixNow sdiv timeWindowSeconds"

text \<open>The spec's time window of a timestamp: the consecutive 2-second buckets
  \<open>[2k, 2k + 2)\<close> of wall-clock time.\<close>

definition window_of :: "int \<Rightarrow> int" where
  "window_of t = t div 2"

text \<open>Times are nanosecond counts; \<^verbatim>\<open>time.Since(t)\<close> is the difference to the clock,
  saturated to the range of \<^verbatim>\<open>time.Duration\<close>.\<close>

definition maxDuration :: int where
  "maxDuration = 2 ^ 63 - 1"

definition Since :: "int \<Rightarrow> int \<Rightarrow> int" where
  "Since now t =
     (let d = now - t
      in if d > maxDuration then maxDuration else if d < - maxDuration - 1 then - maxDuration - 1 else d)"

definition discoveryInterval :: int where
  "discoveryInterval = 5 * 60 * 1000000000"

subsection \<open>The badge directory and \<^verbatim>\<open>filepath.WalkDir\<close>\<close>

text \<open>
  The directory tree as \<^verbatim>\<open>filepath.WalkDir\<close> sees it. \<open>File\<close> is any entry that is
  not a directory; \<open>Unreadable\<close> is a directory whose \<^verbatim>\<open>ReadDir\<close> fails with an error
  (and yields the entries read so far); the root may fail \<^verbatim>\<open>Lstat\<close>.
\<close>

datatype fsnode =
    File string
  | Dir string "fsnode list"
  | Unreadable string os_error "fsnode list"

datatype walk_root = LstatFails os_error | Root fsnode

datatype dirent = DirEntry (Name: string) (IsDir: bool)

text \<open>The argument combinations of a call \<^verbatim>\<open>fn(path, d, err)\<close> that \<^verbatim>\<open>WalkDir\<close>
  makes: an entry without error, an entry with its \<^verbatim>\<open>ReadDir\<close> error, or the root's
  \<^verbatim>\<open>Lstat\<close> error without an entry.\<close>

datatype walk_call = Entry dirent | EntryErr dirent os_error | RootErr os_error

text \<open>
  \<^verbatim>\<open>walkDir\<close> of the standard library, for a callback that threads the variables it
  captures through \<open>'a\<close> and returns \<^verbatim>\<open>nil\<close> or an error: the entry itself is visited,
  then, for a directory, its entries in order, each recursively. The first error ends the
  walk. The callback of \<^verbatim>\<open>discoverBadges\<close> never returns \<^verbatim>\<open>SkipDir\<close> or
  \<^verbatim>\<open>SkipAll\<close>, so those cases are left out.
\<close>

fun walkDir :: "fsnode \<Rightarrow> (walk_call \<Rightarrow> 'a \<Rightarrow> 'a \<times> os_error option) \<Rightarrow> 'a \<Rightarrow> 'a \<times> os_error option"
  and walkDirs :: "fsnode list \<Rightarrow> (walk_call \<Rightarrow> 'a \<Rightarrow> 'a \<times> os_error option) \<Rightarrow> 'a \<Rightarrow> 'a \<times> os_error option"
where
  "walkDir (File n) fn acc = fn (Entry (DirEntry n False)) acc"
| "walkDir (Dir n cs) fn acc =
     (case fn (Entry (DirEntry n True)) acc of
        (acc1, Some e1) \<Rightarrow> (acc1, Some e1)
      | (acc1, None) \<Rightarrow> walkDirs cs fn acc1)"
| "walkDir (Unreadable n e cs) fn acc =
     (case fn (Entry (DirEntry n True)) acc of
        (acc1, Some e1) \<Rightarrow> (acc1, Some e1)
      | (acc1, None) \<Rightarrow>
          (case fn (EntryErr (DirEntry n True) e) acc1 of
             (acc2, Some e2) \<Rightarrow> (acc2, Some e2)
           | (acc2, None) \<Rightarrow> walkDirs cs fn acc2))"
| "walkDirs [] fn acc = (acc, None)"
| "walkDirs (c # cs) fn acc =
     (case walkDir c fn acc of
        (acc1, Some e1) \<Rightarrow> (acc1, Some e1)
      | (acc1, None) \<Rightarrow> walkDirs cs fn acc1)"

definition WalkDir :: "walk_root \<Rightarrow> (walk_call \<Rightarrow> 'a \<Rightarrow> 'a \<times> os_error option) \<Rightarrow> 'a \<Rightarrow> 'a \<times> os_error option" where
  "WalkDir root fn acc =
     (case root of LstatFails e \<Rightarrow> fn (RootErr e) acc | Root n \<Rightarrow> walkDir n fn acc)"

subsection \<open>Discovery\<close>

record server =
  badgeFilesList :: "string list"
  lastDiscoveryTime :: int

text \<open>
  The callback of \<^verbatim>\<open>discoverBadges\<close>; it captures \<^verbatim>\<open>discovered\<close> and writes to the
  log. \<open>verbose\<close> tells whether the access error is logged (\<open>main1\<close> and \<open>vercel\<close>) or
  not (\<open>main2\<close>); the three copies do not differ otherwise.
\<close>

definition eligible :: "dirent \<Rightarrow> bool" where
  "eligible d =
     (\<not> IsDir d \<and> (HasSuffix (ToLower (Name d)) ''.gif'' \<or> HasSuffix (ToLower (Name d)) ''.png''))"

fun walkFn :: "bool \<Rightarrow> walk_call \<Rightarrow> string list \<times> log_event list \<Rightarrow> (string list \<times> log_event list) \<times> os_error option" where
  "walkFn verbose (RootErr errWalk) (discovered, lg) =
     ((discovered, if verbose then lg @ [LogAccessError errWalk] else lg), Some errWalk)"
| "walkFn verbose (EntryErr d errWalk) (discovered, lg) =
     ((discovered, if verbose then lg @ [LogAccessError errWalk] else lg), Some errWalk)"
| "walkFn verbose (Entry d) (discovered, lg) =
     (if eligible d then ((discovered @ [Name d], lg), None) else ((discovered, lg), None))"

text \<open>\<^verbatim>\<open>discoverBadges\<close>: on a walk error the function returns before it touches the
  globals; otherwise it stores the sorted names and the time of the scan.\<close>

definition discoverBadges :: "bool \<Rightarrow> walk_root \<Rightarrow> int \<Rightarrow> server \<Rightarrow> log_event list \<times> server" where
  "discoverBadges verbose root now st =
     (case WalkDir root (walkFn verbose) ([], [LogDiscovering]) of
        ((discovered, lg), Some err) \<Rightarrow> (lg @ [LogDiscoveryError err], st)
      | ((discovered, lg), None) \<Rightarrow>
          if length discovered > 0 then
            (lg @ [LogDiscovered (length discovered) (sort discovered)],
             st\<lparr>badgeFilesList := sort discovered, lastDiscoveryTime := now\<rparr>)
          else
            (lg @ [LogNoneFound], st\<lparr>badgeFilesList := [], lastDiscoveryTime := now\<rparr>))"

subsection \<open>Serving the file\<close>

text \<open>
  What one request reads from its environment: the \<^verbatim>\<open>slot\<close> query parameter, the
  clock at \<^verbatim>\<open>time.Since\<close>, at the end of a discovery and at \<^verbatim>\<open>time.Now().Unix()\<close>,
  the badge directory, and the outcome of opening a path when the file is served
  (\<open>None\<close>: the file is there).
\<close>

record request =
  slotQuery :: "string option"
  nowSince :: int
  nowDiscovery :: int
  nowUnix :: int
  badgesTree :: walk_root
  statFile :: "string \<Rightarrow> os_error option"

text \<open>\<^verbatim>\<open>filepath.Join(badgesDir, selectedFilename)\<close> with \<^verbatim>\<open>badgesDir = "./badges"\<close>:
  the cleaned path of a name that is one path element.\<close>

definition filePathOf :: "string \<Rightarrow> string" where
  "filePathOf selectedFilename = ''badges/'' @ selectedFilename"

definition headersFor :: "string \<Rightarrow> (string \<times> string) list" where
  "headersFor selectedFilename =
     [(''Cache-Control'', ''no-cache, no-store, must-revalidate, public, max-age=0''),
      (''Pragma'', ''no-cache''),
      (''Expires'', ''0''),
      (''Content-Type'',
         if HasSuffix (ToLower selectedFilename) ''.png'' then ''image/png'' else ''image/gif'')]"

text \<open>\<^verbatim>\<open>http.ServeFile\<close> (standard library): the file is streamed, or the error of
  opening it is turned into the library's own error response.\<close>

definition ServeFile :: "(string \<Rightarrow> os_error option) \<Rightarrow> (string \<times> string) list \<Rightarrow> string \<Rightarrow> response" where
  "ServeFile stat hdrs filePath =
     (case stat filePath of
        None \<Rightarrow> Streamed hdrs filePath
      | Some NotExist \<Rightarrow> HttpError 404 ''404 page not found''
      | Some Permission \<Rightarrow> HttpError 403 ''403 Forbidden''
      | Some OtherError \<Rightarrow> HttpError 500 ''500 Internal Server Error'')"

text \<open>\<^verbatim>\<open>fmt.Sprintf("Badge file '%s' not found on server.", selectedFilename)\<close>\<close>

definition notFoundMessage :: "string \<Rightarrow> string" where
  "notFoundMessage selectedFilename =
     ''Badge file '' @ [CHR 0x27] @ selectedFilename @ [CHR 0x27] @ '' not found on server.''"

subsection \<open>The handlers\<close>

text \<open>\<^verbatim>\<open>badgeHandler\<close> of \<open>main1\<close> (\<^verbatim>\<open>src/main.go\<close> lines 61-120). The result is the
  server state, the log written, and the response or the panic.\<close>

definition badgeHandler_main1 ::
  "'s rng \<Rightarrow> request \<Rightarrow> server \<Rightarrow> server \<times> log_event list \<times> (panic + response)" where
  "badgeHandler_main1 g rq st0 =
     (let (lg1, st) =
            (if Since (nowSince rq) (lastDiscoveryTime st0) > discoveryInterval
             then discoverBadges True (badgesTree rq) (nowDiscovery rq) st0
             else ([], st0))
      in if length (badgeFilesList st) = 0 then
           (st, lg1 @ [LogNoBadges], Inr (HttpError 404 ''No badges available''))
         else
           let currentAvailableBadges = badgeFilesList st
           in if length currentAvailableBadges = 0 then
                (st, lg1 @ [LogCopiedEmpty], Inr (HttpError 404 ''No badges available after copy''))
              else
                let baseSeed = baseSeedOf (nowUnix rq);
                    slot = normalizeSlot_main1 (Atoi (queryGet (slotQuery rq)))
                in case select_main1 g currentAvailableBadges baseSeed slot of
                     Inl p \<Rightarrow> (st, lg1, Inl p)
                   | Inr (lg2, Inl err) \<Rightarrow> (st, lg1 @ lg2, Inr err)
                   | Inr (lg2, Inr selectedFilename) \<Rightarrow>
                       let filePath = filePathOf selectedFilename
                       in (st, lg1 @ lg2 @ [LogServing slot baseSeed filePath],
                           Inr (ServeFile (statFile rq) (headersFor selectedFilename) filePath)))"

text \<open>\<^verbatim>\<open>badgeHandler\<close> of \<open>main2\<close> (\<^verbatim>\<open>src/main.go\<close> lines 215-281).\<close>

definition badgeHandler_main2 ::
  "'s rng \<Rightarrow> request \<Rightarrow> server \<Rightarrow> server \<times> log_event list \<times> (panic + response)" where
  "badgeHandler_main2 g rq st0 =
     (let (lg1, st) =
            (if Since (nowSince rq) (lastDiscoveryTime st0) > discoveryInterval
             then discoverBadges False (badgesTree rq) (nowDiscovery rq) st0
             else ([], st0))
      in if length (badgeFilesList st) = 0 then
           (st, lg1 @ [LogNoBadges], Inr (HttpError 404 ''No badges available''))
         else
           let currentAvailableBadges = badgeFilesList st;
               baseSeed = baseSeedOf (nowUnix rq);
               slotStr = queryGet (slotQuery rq);
               (lgs, slot) = normalizeSlot_main2 slotStr (Atoi slotStr)
           in case select_main2 g currentAvailableBadges baseSeed slot of
                Inl p \<Rightarrow> (st, lg1 @ lgs, Inl p)
              | Inr (lg2, Inl err) \<Rightarrow> (st, lg1 @ lgs @ lg2, Inr err)
              | Inr (lg2, Inr selectedFilename) \<Rightarrow>
                  let filePath = filePathOf selectedFilename
                  in (st, lg1 @ lgs @ lg2 @ [LogServing slot baseSeed filePath],
                      Inr (ServeFile (statFile rq) (headersFor selectedFilename) filePath)))"

text \<open>\<^verbatim>\<open>badgeHandlerInternal\<close> of \<open>vercel\<close> (\<^verbatim>\<open>src/unnamed/part_000\<close> lines 81-157):
  no freshness check of its own, and an \<^verbatim>\<open>os.Stat\<close> of the resolved path before the
  file is served.\<close>

definition badgeHandlerInternal ::
  "'s rng \<Rightarrow> request \<Rightarrow> server \<Rightarrow> server \<times> log_event list \<times> (panic + response)" where
  "badgeHandlerInternal g rq st =
     (if length (badgeFilesList st) = 0 then
        (st, [LogNoBadges], Inr (HttpError 404 ''No badges available''))
      else
        let localBadgeFilesList = badgeFilesList st
        in if length localBadgeFilesList = 0 then
             (st, [LogCopiedEmpty], Inr (HttpError 404 ''No badges available after copy''))
           else
             let baseSeed = baseSeedOf (nowUnix rq);
                 slot = normalizeSlot_vercel (Atoi (queryGet (slotQuery rq)))
             in case select_vercel g localBadgeFilesList baseSeed slot of
                  Inl p \<Rightarrow> (st, [], Inl p)
                | Inr (lg2, Inl err) \<Rightarrow> (st, lg2, Inr err)
                | Inr (lg2, Inr selectedFilename) \<Rightarrow>
                    let filePath = filePathOf selectedFilename;
                        lg3 = lg2 @ [LogServing slot baseSeed filePath]
                    in if statFile rq filePath = Some NotExist then
                         (st, lg3 @ [LogFileNotFound filePath],
                          Inr (HttpError 404 (notFoundMessage selectedFilename)))
                       else
                         (st, lg3,
                          Inr (ServeFile (statFile rq) (headersFor selectedFilename) filePath)))"

text \<open>
  \<^verbatim>\<open>Handler\<close> of \<open>vercel\<close> (lines 64-75), the entry point of the serverless
  deployment: the freshness check, then the route. The pattern \<^verbatim>\<open>/badge.gif\<close> goes to
  \<^verbatim>\<open>badgeHandlerInternal\<close>, every other path to \<^verbatim>\<open>rootHandlerInternal\<close>.
  When the program is started through \<^verbatim>\<open>main\<close> instead, \<^verbatim>\<open>badgeHandlerInternal\<close> is
  registered directly and \<^verbatim>\<open>Handler\<close> is not run.
\<close>

datatype route = RootRoute | BadgeRoute

definition Handler ::
  "'s rng \<Rightarrow> route \<Rightarrow> request \<Rightarrow> server \<Rightarrow> server \<times> log_event list \<times> (panic + response)" where
  "Handler g rt rq st0 =
     (let shouldDiscover =
            (length (badgeFilesList st0) = 0
             \<or> Since (nowSince rq) (lastDiscoveryTime st0) > discoveryInterval);
          (lg1, st) =
            (if shouldDiscover
             then discoverBadges True (badgesTree rq) (nowDiscovery rq) st0
             else ([], st0))
      in case rt of
           RootRoute \<Rightarrow>
             (st, lg1,
              Inr (PlainText
                ''Go Animated Badge Rotator (Slot-based, Vercel). Use /badge.gif?slot=N''))
         | BadgeRoute \<Rightarrow>
             (case badgeHandlerInternal g rq st of (st', lg2, r) \<Rightarrow> (st', lg1 @ lg2, r)))"

subsection \<open>Notions used in the statements\<close>

text \<open>The accumulator of the walk after some steps: the log has grown by access errors
  only.\<close>

definition log_grows :: "string list \<times> log_event list \<Rightarrow> string list \<times> log_event list \<Rightarrow> bool" where
  "log_grows acc acc' = (\<exists>ex. snd acc' = snd acc @ ex \<and> set ex \<subseteq> range LogAccessError)"

text \<open>The file name a selection returns, if it returns one.\<close>

definition selectedFilename :: "panic + (log_event list \<times> (response + string)) \<Rightarrow> string option" where
  "selectedFilename res = (case res of Inr (lg, Inr f) \<Rightarrow> Some f | _ \<Rightarrow> None)"

text \<open>The log and the response of a handler's result.\<close>

definition logOf :: "server \<times> log_event list \<times> (panic + response) \<Rightarrow> log_event list" where
  "logOf res = fst (snd res)"

definition responseOf :: "server \<times> log_event list \<times> (panic + response) \<Rightarrow> panic + response" where
  "responseOf res = snd (snd res)"

text \<open>
  For the statements about discovery: the names of the entries that are not directories,
  at any depth below a node and in the order of the walk; the error of the first
  directory in that order that cannot be read, and with it the error of a scan from the
  root, if there is one; and the test \<^verbatim>\<open>discoverBadges\<close> makes on a name.
\<close>

fun filesBelow :: "fsnode \<Rightarrow> string list"
  and filesBelowAll :: "fsnode list \<Rightarrow> string list"
where
  "filesBelow (File n) = [n]"
| "filesBelow (Dir n cs) = filesBelowAll cs"
| "filesBelow (Unreadable n e cs) = filesBelowAll cs"
| "filesBelowAll [] = []"
| "filesBelowAll (c # cs) = filesBelow c @ filesBelowAll cs"

fun firstError :: "fsnode \<Rightarrow> os_error option"
  and firstErrorAll :: "fsnode list \<Rightarrow> os_error option"
where
  "firstError (File n) = None"
| "firstError (Dir n cs) = firstErrorAll cs"
| "firstError (Unreadable n e cs) = Some e"
| "firstErrorAll [] = None"
| "firstErrorAll (c # cs) = (case firstError c of Some e \<Rightarrow> Some e | None \<Rightarrow> firstErrorAll cs)"

definition scanError :: "walk_root \<Rightarrow> os_error option" where
  "scanError root = (case root of LstatFails e \<Rightarrow> Some e | Root n \<Rightarrow> firstError n)"

definition eligibleName :: "string \<Rightarrow> bool" where
  "eligibleName n = (HasSuffix (ToLower n) ''.gif'' \<or> HasSuffix (ToLower n) ''.png'')"

subsection \<open>Example inputs\<close>

text \<open>
  The state of the globals when the program starts (\<^verbatim>\<open>lastDiscoveryTime\<close> is the zero
  \<^verbatim>\<open>time.Time\<close>, year 1, here in nanoseconds relative to the Unix epoch), some badge
  directories, and requests that read the clock shortly after a scan at time 0.
\<close>

definition startState :: server where
  "startState = \<lparr>badgeFilesList = [], lastDiscoveryTime = - 62135596800 * 1000000000\<rparr>"

definition emptyDir :: walk_root where
  "emptyDir = Root (Dir ''badges'' [])"

definition flatDir :: walk_root where
  "flatDir = Root (Dir ''badges''
     [File ''a.gif'', File ''b.png'', File ''c.GIF'', File ''d.png'', File ''notes.txt''])"

definition nestedDir :: walk_root where
  "nestedDir = Root (Dir ''badges'' [Dir ''sub'' [File ''x.gif'']])"

definition twinDir :: walk_root where
  "twinDir = Root (Dir ''badges'' [File ''a.gif'', Dir ''sub'' [File ''a.gif'']])"

definition lockedDir :: walk_root where
  "lockedDir = Root (Dir ''badges'' [File ''a.gif'', Unreadable ''private'' Permission []])"

definition allPresent :: "string \<Rightarrow> os_error option" where
  "allPresent filePath = None"

text \<open>Only \<^verbatim>\<open>badges/sub/x.gif\<close> exists, as in \<open>nestedDir\<close>.\<close>

definition nestedStat :: "string \<Rightarrow> os_error option" where
  "nestedStat filePath = (if filePath = ''badges/sub/x.gif'' then None else Some NotExist)"

definition allMissing :: "string \<Rightarrow> os_error option" where
  "allMissing filePath = Some NotExist"

definition requestAt :: "string option \<Rightarrow> walk_root \<Rightarrow> (string \<Rightarrow> os_error option) \<Rightarrow> request" where
  "requestAt q root stat =
     \<lparr>slotQuery = q, nowSince = 1000000000, nowDiscovery = 1000000001, nowUnix = 100,
      badgesTree = root, statFile = stat\<rparr>"

section \<open>Properties of the shuffle\<close>

lemma swap_Inr:
  assumes "i < length xs" "j < length xs"
  shows "\<exists>ys. swap xs i j = Inr ys \<and> mset ys = mset xs"
  using assms by (simp add: swap_def mset_swap)

lemma draw_bound: "fst (draw g st i) \<le> i"
  by (simp add: draw_def Let_def split: prod.splits)

lemma shuffle_from_perm:
  "i < length xs \<Longrightarrow> \<exists>ys. shuffle_from g i st xs = Inr ys \<and> mset ys = mset xs"
proof (induction i arbitrary: st xs)
  case 0
  then show ?case by simp
next
  case (Suc k)
  obtain j st' where d: "draw g st (Suc k) = (j, st')"
    by (cases "draw g st (Suc k)")
  with draw_bound [of g st "Suc k"] have "j \<le> Suc k" by simp
  with Suc.prems have "j < length xs" by simp
  with Suc.prems obtain zs where z: "swap xs (Suc k) j = Inr zs" "mset zs = mset xs"
    using swap_Inr by blast
  from z(2) have "length zs = length xs" by (rule mset_eq_length)
  with Suc.prems have "k < length zs" by simp
  from Suc.IH [OF this] obtain ys where "shuffle_from g k st' zs = Inr ys" "mset ys = mset zs"
    by blast
  with d z show ?case by simp
qed

lemma Shuffle_perm:
  "\<exists>ys. Shuffle g seed (length xs) xs = Inr ys \<and> mset ys = mset xs"
proof (cases xs)
  case Nil
  then show ?thesis by (simp add: Shuffle_def)
next
  case (Cons a as)
  then have "length xs - 1 < length xs" by simp
  from shuffle_from_perm [OF this] show ?thesis by (simp add: Shuffle_def)
qed

section \<open>Properties of the selection\<close>

lemma smod_nonneg: "0 \<le> a \<Longrightarrow> 0 < b \<Longrightarrow> (a::int) smod b = a mod b"
  by (cases "a = 0") (simp_all add: signed_modulo_int_def)

lemma go_rem_slot:
  assumes "1 \<le> slot" "0 < n"
  shows "go_rem (slot - 1) (int n) = Inr ((slot - 1) mod int n)"
  using assms by (simp add: go_rem_def smod_nonneg)

lemma Shuffle_range:
  obtains ys where "Shuffle g seed n [0..<n] = Inr ys"
    "length ys = n" "distinct ys" "set ys = {0..<n}"
proof -
  from Shuffle_perm [of g seed "[0..<n]"]
  obtain ys where ys: "Shuffle g seed n [0..<n] = Inr ys" "mset ys = mset [0..<n]"
    by auto
  from ys(2) have "length ys = n" using mset_eq_length by fastforce
  moreover from ys(2) have "distinct ys" by (metis distinct_upt mset_eq_imp_distinct_iff)
  moreover from ys(2) have "set ys = {0..<n}" by (metis mset_eq_setD set_upt)
  ultimately show thesis using that ys by blast
qed

lemma slot_position:
  assumes "1 \<le> slot" "0 < n"
  shows "nat ((slot - 1) mod int n) < n"
  using assms by (simp add: nat_less_iff)

lemma picked_in_range:
  assumes "badges \<noteq> []" "1 \<le> slot" "length ys = length badges" "set ys = {0..<length badges}"
  shows "ys ! nat ((slot - 1) mod int (length badges)) < length badges"
proof -
  from assms(1) have n: "0 < length badges" by simp
  have "nat ((slot - 1) mod int (length badges)) < length ys"
    using slot_position [OF assms(2) n] assms(3) by simp
  then have "ys ! nat ((slot - 1) mod int (length badges)) \<in> set ys" by (rule nth_mem)
  then show ?thesis using assms(4) by simp
qed

lemma select_main1_pick:
  assumes "badges \<noteq> []" "1 \<le> slot"
    and "Shuffle g seed (length badges) [0..<length badges] = Inr ys"
    and "length ys = length badges" "set ys = {0..<length badges}"
  shows "select_main1 g badges seed slot =
           Inr ([], Inr (badges ! (ys ! nat ((slot - 1) mod int (length badges)))))"
proof -
  let ?n = "length badges"
  from assms(1) have n: "0 < ?n" by simp
  have e: "(slot - 1) mod int ?n < int ?n" "0 \<le> (slot - 1) mod int ?n" using n by simp_all
  show ?thesis
    using assms(3,4) go_rem_slot [OF assms(2) n] e slot_position [OF assms(2) n]
      picked_in_range [OF assms(1,2,4,5)]
    by (simp add: select_main1_def index_def)
qed

lemma select_main2_eq_main1: "select_main2 g badges seed slot = select_main1 g badges seed slot"
  by (simp add: select_main2_def select_main1_def)

lemma select_vercel_pick:
  assumes "badges \<noteq> []" "1 \<le> slot"
    and "Shuffle g seed (length badges) [0..<length badges] = Inr ys"
    and "length ys = length badges" "set ys = {0..<length badges}"
  shows "select_vercel g badges seed slot =
           Inr ([], Inr (badges ! (ys ! nat ((slot - 1) mod int (length badges)))))"
proof -
  let ?n = "length badges"
  from assms(1) have n: "0 < ?n" by simp
  have e: "(slot - 1) mod int ?n < int ?n" "0 \<le> (slot - 1) mod int ?n" using n by simp_all
  show ?thesis
    using assms(3,4) go_rem_slot [OF assms(2) n] e slot_position [OF assms(2) n]
      picked_in_range [OF assms(1,2,4,5)] n
    by (simp add: select_vercel_def index_def)
qed

lemma normalizeSlot_main1_ge: "1 \<le> normalizeSlot_main1 r"
  by (simp add: normalizeSlot_main1_def split: sum.splits)

lemma normalizeSlot_vercel_ge: "1 \<le> normalizeSlot_vercel r"
  by (simp add: normalizeSlot_vercel_def split: sum.splits)

lemma normalizeSlot_main2_ge: "1 \<le> snd (normalizeSlot_main2 slotStr r)"
  by (simp add: normalizeSlot_main2_def split: sum.splits)

section \<open>The log of a discovery\<close>

lemma log_grows_refl: "log_grows acc acc"
  by (simp add: log_grows_def)

lemma log_grows_trans: "log_grows a b \<Longrightarrow> log_grows b c \<Longrightarrow> log_grows a c"
  unfolding log_grows_def by (metis append.assoc set_append Un_least)

lemma walkFn_grows: "log_grows acc (fst (walkFn v c acc))"
  by (cases "(v, c, acc)" rule: walkFn.cases) (auto simp: log_grows_def)

lemma walkFn_error: "snd (walkFn v (EntryErr d e) acc) = Some e" "snd (walkFn v (RootErr e) acc) = Some e"
  by (cases acc, simp)+

lemma walk_grows:
  "log_grows acc (fst (walkDir n (walkFn v) acc))"
  "log_grows acc (fst (walkDirs ns (walkFn v) acc))"
proof (induction n "walkFn v" acc and ns "walkFn v" acc rule: walkDir_walkDirs.induct)
  case (1 n acc)
  then show ?case by (simp add: walkFn_grows)
next
  case (2 n cs acc)
  show ?case
  proof (cases "walkFn v (Entry (DirEntry n True)) acc")
    case (Pair acc1 e)
    with walkFn_grows [of acc v "Entry (DirEntry n True)"] have g: "log_grows acc acc1" by simp
    show ?thesis
    proof (cases e)
      case None
      with Pair 2 have "log_grows acc1 (fst (walkDirs cs (walkFn v) acc1))" by simp
      with g Pair None show ?thesis by (auto intro: log_grows_trans)
    next
      case (Some a)
      with g Pair show ?thesis by simp
    qed
  qed
next
  case (3 n e cs acc)
  show ?case
  proof (cases "walkFn v (Entry (DirEntry n True)) acc")
    case (Pair acc1 e1)
    with walkFn_grows [of acc v "Entry (DirEntry n True)"] have g: "log_grows acc acc1" by simp
    show ?thesis
    proof (cases e1)
      case None
      obtain acc2 e2 where p2: "walkFn v (EntryErr (DirEntry n True) e) acc1 = (acc2, e2)"
        by (cases "walkFn v (EntryErr (DirEntry n True) e) acc1")
      with walkFn_grows [of acc1 v "EntryErr (DirEntry n True) e"] have g2: "log_grows acc1 acc2"
        by simp
      from p2 walkFn_error(1) [of v "DirEntry n True" e acc1] have "e2 = Some e" by simp
      with g g2 Pair None p2 show ?thesis by (auto intro: log_grows_trans)
    next
      case (Some a)
      with g Pair show ?thesis by simp
    qed
  qed
next
  case (4 acc)
  then show ?case by (simp add: log_grows_refl)
next
  case (5 c cs acc)
  show ?case
  proof (cases "walkDir c (walkFn v) acc")
    case (Pair acc1 e1)
    with 5(1) have g: "log_grows acc acc1" by simp
    show ?thesis
    proof (cases e1)
      case None
      with Pair 5(2) have "log_grows acc1 (fst (walkDirs cs (walkFn v) acc1))" by simp
      with g Pair None show ?thesis by (auto intro: log_grows_trans)
    next
      case (Some a)
      with g Pair show ?thesis by simp
    qed
  qed
qed

lemma WalkDir_grows: "log_grows acc (fst (WalkDir root (walkFn v) acc))"
  by (cases root) (simp_all add: WalkDir_def walk_grows walkFn_grows)

lemma WalkDir_log:
  assumes "WalkDir root (walkFn v) ([], [LogDiscovering]) = ((discovered, lg), e)"
  obtains ex where "lg = LogDiscovering # ex" "set ex \<subseteq> range LogAccessError"
proof -
  from WalkDir_grows [of "([], [LogDiscovering])" root v] assms
  show thesis using that by (auto simp: log_grows_def)
qed

text \<open>The log of a discovery: the start message, access errors, and one closing message.\<close>

lemma discover_log:
  obtains ex t where "fst (discoverBadges v root now st) = LogDiscovering # ex @ [t]"
    "set ex \<subseteq> range LogAccessError"
    "t \<in> range LogDiscoveryError \<union> {LogNoneFound} \<union> {LogDiscovered n l | n l. True}"
proof -
  obtain discovered lg e where w: "WalkDir root (walkFn v) ([], [LogDiscovering]) = ((discovered, lg), e)"
    by (metis surj_pair)
  from WalkDir_log [OF w] obtain ex where ex: "lg = LogDiscovering # ex" "set ex \<subseteq> range LogAccessError"
    by blast
  show thesis
  proof (cases e)
    case None
    with w ex have "fst (discoverBadges v root now st) =
        LogDiscovering # ex @ [if length discovered > 0 then LogDiscovered (length discovered) (sort discovered) else LogNoneFound]"
      by (simp add: discoverBadges_def)
    with ex(2) show thesis by (intro that) auto
  next
    case (Some err)
    with w ex have "fst (discoverBadges v root now st) = LogDiscovering # ex @ [LogDiscoveryError err]"
      by (simp add: discoverBadges_def)
    with ex(2) show thesis by (intro that) auto
  qed
qed

lemma discover_logs_start: "LogDiscovering \<in> set (fst (discoverBadges v root now st))"
  by (rule discover_log [of v root now st]) simp

lemma discover_logs_only:
  assumes "x \<in> set (fst (discoverBadges v root now st))"
  shows "x = LogDiscovering \<or> x \<in> range LogAccessError \<or> x \<in> range LogDiscoveryError
         \<or> x = LogNoneFound \<or> (\<exists>n l. x = LogDiscovered n l)"
  by (rule discover_log [of v root now st]) (use assms in auto)

section \<open>What a handler returns\<close>

lemma select_main1_member:
  assumes "badges \<noteq> []" "1 \<le> slot"
  shows "\<exists>f. f \<in> set badges \<and> select_main1 g badges seed slot = Inr ([], Inr f)"
proof -
  obtain ys where ys: "Shuffle g seed (length badges) [0..<length badges] = Inr ys"
    "length ys = length badges" "set ys = {0..<length badges}"
    by (rule Shuffle_range [of g seed "length badges"])
  from picked_in_range [OF assms ys(2,3)] select_main1_pick [OF assms ys]
  show ?thesis by simp
qed

lemma select_vercel_member:
  assumes "badges \<noteq> []" "1 \<le> slot"
  shows "\<exists>f. f \<in> set badges \<and> select_vercel g badges seed slot = Inr ([], Inr f)"
proof -
  obtain ys where ys: "Shuffle g seed (length badges) [0..<length badges] = Inr ys"
    "length ys = length badges" "set ys = {0..<length badges}"
    by (rule Shuffle_range [of g seed "length badges"])
  from picked_in_range [OF assms ys(2,3)] select_vercel_pick [OF assms ys]
  show ?thesis by simp
qed

lemma badgeHandler_main1_empty:
  assumes "(if Since (nowSince rq) (lastDiscoveryTime st0) > discoveryInterval
            then discoverBadges True (badgesTree rq) (nowDiscovery rq) st0 else ([], st0)) = (lg1, st)"
    and "badgeFilesList st = []"
  shows "badgeHandler_main1 g rq st0 =
           (st, lg1 @ [LogNoBadges], Inr (HttpError 404 ''No badges available''))"
  using assms by (simp add: badgeHandler_main1_def)

lemma badgeHandler_main1_serves:
  assumes "(if Since (nowSince rq) (lastDiscoveryTime st0) > discoveryInterval
            then discoverBadges True (badgesTree rq) (nowDiscovery rq) st0 else ([], st0)) = (lg1, st)"
    and "badgeFilesList st \<noteq> []"
  shows "\<exists>f. f \<in> set (badgeFilesList st)
           \<and> select_main1 g (badgeFilesList st) (baseSeedOf (nowUnix rq))
                (normalizeSlot_main1 (Atoi (queryGet (slotQuery rq)))) = Inr ([], Inr f)
           \<and> badgeHandler_main1 g rq st0 =
               (st, lg1 @ [LogServing (normalizeSlot_main1 (Atoi (queryGet (slotQuery rq))))
                             (baseSeedOf (nowUnix rq)) (filePathOf f)],
                Inr (ServeFile (statFile rq) (headersFor f) (filePathOf f)))"
proof -
  from select_main1_member [OF assms(2) normalizeSlot_main1_ge]
  obtain f where f: "f \<in> set (badgeFilesList st)"
    "select_main1 g (badgeFilesList st) (baseSeedOf (nowUnix rq))
       (normalizeSlot_main1 (Atoi (queryGet (slotQuery rq)))) = Inr ([], Inr f)"
    by blast
  from assms f(2) have "badgeHandler_main1 g rq st0 =
               (st, lg1 @ [LogServing (normalizeSlot_main1 (Atoi (queryGet (slotQuery rq))))
                             (baseSeedOf (nowUnix rq)) (filePathOf f)],
                Inr (ServeFile (statFile rq) (headersFor f) (filePathOf f)))"
    by (simp add: badgeHandler_main1_def Let_def)
  with f show ?thesis by blast
qed

lemma badgeHandler_main2_empty:
  assumes "(if Since (nowSince rq) (lastDiscoveryTime st0) > discoveryInterval
            then discoverBadges False (badgesTree rq) (nowDiscovery rq) st0 else ([], st0)) = (lg1, st)"
    and "badgeFilesList st = []"
  shows "badgeHandler_main2 g rq st0 =
           (st, lg1 @ [LogNoBadges], Inr (HttpError 404 ''No badges available''))"
  using assms by (simp add: badgeHandler_main2_def)

lemma badgeHandler_main2_serves:
  assumes "(if Since (nowSince rq) (lastDiscoveryTime st0) > discoveryInterval
            then discoverBadges False (badgesTree rq) (nowDiscovery rq) st0 else ([], st0)) = (lg1, st)"
    and "badgeFilesList st \<noteq> []"
    and "normalizeSlot_main2 (queryGet (slotQuery rq)) (Atoi (queryGet (slotQuery rq))) = (lgs, slot)"
  shows "\<exists>f. f \<in> set (badgeFilesList st)
           \<and> select_main2 g (badgeFilesList st) (baseSeedOf (nowUnix rq)) slot = Inr ([], Inr f)
           \<and> badgeHandler_main2 g rq st0 =
               (st, lg1 @ lgs @ [LogServing slot (baseSeedOf (nowUnix rq)) (filePathOf f)],
                Inr (ServeFile (statFile rq) (headersFor f) (filePathOf f)))"
proof -
  from normalizeSlot_main2_ge [of "queryGet (slotQuery rq)" "Atoi (queryGet (slotQuery rq))"] assms(3)
  have "1 \<le> slot" by simp
  from select_main1_member [OF assms(2) this]
  obtain f where f: "f \<in> set (badgeFilesList st)"
    "select_main2 g (badgeFilesList st) (baseSeedOf (nowUnix rq)) slot = Inr ([], Inr f)"
    unfolding select_main2_eq_main1 by blast
  from assms f(2) have "badgeHandler_main2 g rq st0 =
               (st, lg1 @ lgs @ [LogServing slot (baseSeedOf (nowUnix rq)) (filePathOf f)],
                Inr (ServeFile (statFile rq) (headersFor f) (filePathOf f)))"
    by (simp add: badgeHandler_main2_def Let_def)
  with f show ?thesis by blast
qed

lemma badgeHandlerInternal_empty:
  assumes "badgeFilesList st = []"
  shows "badgeHandlerInternal g rq st =
           (st, [LogNoBadges], Inr (HttpError 404 ''No badges available''))"
  using assms by (simp add: badgeHandlerInternal_def)

lemma badgeHandlerInternal_serves:
  assumes "badgeFilesList st \<noteq> []"
  shows "\<exists>f. f \<in> set (badgeFilesList st)
           \<and> select_vercel g (badgeFilesList st) (baseSeedOf (nowUnix rq))
                (normalizeSlot_vercel (Atoi (queryGet (slotQuery rq)))) = Inr ([], Inr f)
           \<and> badgeHandlerInternal g rq st =
               (if statFile rq (filePathOf f) = Some NotExist then
                  (st, [LogServing (normalizeSlot_vercel (Atoi (queryGet (slotQuery rq))))
                             (baseSeedOf (nowUnix rq)) (filePathOf f), LogFileNotFound (filePathOf f)],
                   Inr (HttpError 404 (notFoundMessage f)))
                else
                  (st, [LogServing (normalizeSlot_vercel (Atoi (queryGet (slotQuery rq))))
                             (baseSeedOf (nowUnix rq)) (filePathOf f)],
                   Inr (ServeFile (statFile rq) (headersFor f) (filePathOf f))))"
proof -
  from select_vercel_member [OF assms normalizeSlot_vercel_ge]
  obtain f where f: "f \<in> set (badgeFilesList st)"
    "select_vercel g (badgeFilesList st) (baseSeedOf (nowUnix rq))
       (normalizeSlot_vercel (Atoi (queryGet (slotQuery rq)))) = Inr ([], Inr f)"
    by blast
  from assms f(2) have "badgeHandlerInternal g rq st =
               (if statFile rq (filePathOf f) = Some NotExist then
                  (st, [LogServing (normalizeSlot_vercel (Atoi (queryGet (slotQuery rq))))
                             (baseSeedOf (nowUnix rq)) (filePathOf f), LogFileNotFound (filePathOf f)],
                   Inr (HttpError 404 (notFoundMessage f)))
                else
                  (st, [LogServing (normalizeSlot_vercel (Atoi (queryGet (slotQuery rq))))
                             (baseSeedOf (nowUnix rq)) (filePathOf f)],
                   Inr (ServeFile (statFile rq) (headersFor f) (filePathOf f))))"
    by (simp add: badgeHandlerInternal_def Let_def)
  with f show ?thesis by blast
qed

section \<open>When a discovery runs\<close>

lemma LogDiscovering_main1:
  "LogDiscovering \<in> set (logOf (badgeHandler_main1 g rq st0))
     \<longleftrightarrow> Since (nowSince rq) (lastDiscoveryTime st0) > discoveryInterval"
proof -
  obtain lg1 st where r: "(if Since (nowSince rq) (lastDiscoveryTime st0) > discoveryInterval
            then discoverBadges True (badgesTree rq) (nowDiscovery rq) st0 else ([], st0)) = (lg1, st)"
    by (metis surj_pair)
  have lg1: "LogDiscovering \<in> set lg1 \<longleftrightarrow> Since (nowSince rq) (lastDiscoveryTime st0) > discoveryInterval"
    using r discover_logs_start [of True "badgesTree rq" "nowDiscovery rq" st0]
    by (auto split: if_splits)
  show ?thesis
  proof (cases "badgeFilesList st = []")
    case True
    from badgeHandler_main1_empty [OF r True, of g] lg1 show ?thesis by (simp add: logOf_def)
  next
    case False
    from badgeHandler_main1_serves [OF r False, of g] lg1 show ?thesis by (auto simp: logOf_def)
  qed
qed

lemma LogDiscovering_main2:
  "LogDiscovering \<in> set (logOf (badgeHandler_main2 g rq st0))
     \<longleftrightarrow> Since (nowSince rq) (lastDiscoveryTime st0) > discoveryInterval"
proof -
  obtain lg1 st where r: "(if Since (nowSince rq) (lastDiscoveryTime st0) > discoveryInterval
            then discoverBadges False (badgesTree rq) (nowDiscovery rq) st0 else ([], st0)) = (lg1, st)"
    by (metis surj_pair)
  obtain lgs slot where n: "normalizeSlot_main2 (queryGet (slotQuery rq)) (Atoi (queryGet (slotQuery rq))) = (lgs, slot)"
    by (metis surj_pair)
  then have lgs: "LogDiscovering \<notin> set lgs"
    by (auto simp: normalizeSlot_main2_def split: sum.splits if_splits)
  have lg1: "LogDiscovering \<in> set lg1 \<longleftrightarrow> Since (nowSince rq) (lastDiscoveryTime st0) > discoveryInterval"
    using r discover_logs_start [of False "badgesTree rq" "nowDiscovery rq" st0]
    by (auto split: if_splits)
  show ?thesis
  proof (cases "badgeFilesList st = []")
    case True
    from badgeHandler_main2_empty [OF r True, of g] lg1 show ?thesis by (simp add: logOf_def)
  next
    case False
    from badgeHandler_main2_serves [OF r False n, of g] lg1 lgs show ?thesis by (auto simp: logOf_def)
  qed
qed

lemma LogDiscovering_internal:
  "LogDiscovering \<notin> set (logOf (badgeHandlerInternal g rq st))"
proof (cases "badgeFilesList st = []")
  case True
  from badgeHandlerInternal_empty [OF True, of g rq] show ?thesis by (simp add: logOf_def)
next
  case False
  from badgeHandlerInternal_serves [OF False, of g rq] show ?thesis
    by (auto simp: logOf_def split: if_splits)
qed

lemma LogDiscovering_Handler:
  "LogDiscovering \<in> set (logOf (Handler g rt rq st0))
     \<longleftrightarrow> badgeFilesList st0 = []
          \<or> Since (nowSince rq) (lastDiscoveryTime st0) > discoveryInterval"
proof -
  let ?c = "length (badgeFilesList st0) = 0 \<or> Since (nowSince rq) (lastDiscoveryTime st0) > discoveryInterval"
  obtain lg1 st where r: "(if ?c
            then discoverBadges True (badgesTree rq) (nowDiscovery rq) st0 else ([], st0)) = (lg1, st)"
    by (metis surj_pair)
  have lg1: "LogDiscovering \<in> set lg1 \<longleftrightarrow> ?c"
    using r discover_logs_start [of True "badgesTree rq" "nowDiscovery rq" st0]
    by (auto split: if_splits)
  obtain st' lg2 resp where h: "badgeHandlerInternal g rq st = (st', lg2, resp)"
    by (metis surj_pair)
  with LogDiscovering_internal [of g rq st] have lg2: "LogDiscovering \<notin> set lg2"
    by (simp add: logOf_def)
  have "logOf (Handler g rt rq st0) = (case rt of RootRoute \<Rightarrow> lg1 | BadgeRoute \<Rightarrow> lg1 @ lg2)"
    using r h by (simp add: Handler_def logOf_def Let_def split: route.splits)
  with lg1 lg2 show ?thesis by (cases rt) auto
qed

section \<open>Comparing the variants\<close>

lemma Shuffle_empty: "Shuffle g seed 0 [] = Inr []"
  by (simp add: Shuffle_def)

lemma select_empty:
  "select_main1 g [] seed slot = Inl DivideByZero"
  "select_main2 g [] seed slot = Inl DivideByZero"
  "select_vercel g [] seed slot =
     Inr ([LogEmptyIndices], Inl (HttpError 500 ''Error selecting badge (empty internal list)''))"
  by (simp_all add: select_main1_def select_main2_def select_vercel_def Shuffle_empty go_rem_def)

lemma select_vercel_eq_main1:
  assumes "badges \<noteq> []"
  shows "select_vercel g badges seed slot = select_main1 g badges seed slot"
proof -
  obtain ys where ys: "Shuffle g seed (length badges) [0..<length badges] = Inr ys"
    "length ys = length badges"
    by (rule Shuffle_range [of g seed "length badges"])
  with assms show ?thesis
    by (simp add: select_vercel_def select_main1_def)
qed

lemma normalize_Inr:
  "1 \<le> s \<Longrightarrow> normalizeSlot_main1 (Inr s) = s"
  "1 \<le> s \<Longrightarrow> normalizeSlot_vercel (Inr s) = s"
  "1 \<le> s \<Longrightarrow> s \<le> numBadgeSlots \<Longrightarrow> snd (normalizeSlot_main2 slotStr (Inr s)) = s"
  by (simp_all add: normalizeSlot_main1_def normalizeSlot_vercel_def normalizeSlot_main2_def)

lemma selectedFilename_Some:
  "selectedFilename res = Some f \<longleftrightarrow> (\<exists>lg. res = Inr (lg, Inr f))"
  by (auto simp: selectedFilename_def split: sum.splits prod.splits)

lemma notFoundMessage_names: "\<exists>pre post. notFoundMessage f = pre @ f @ post"
  unfolding notFoundMessage_def by (metis append.assoc)

lemma select_single:
  "select_main1 g [b] seed 1 = Inr ([], Inr b)"
  "select_main2 g [b] seed 1 = Inr ([], Inr b)"
  "select_vercel g [b] seed 1 = Inr ([], Inr b)"
  by (simp_all add: select_main1_def select_main2_def select_vercel_def Shuffle_def go_rem_def
      index_def)

lemma Atoi_one: "Atoi ''1'' = Inr 1"
  by (simp add: Atoi_def isDigit_def)

section \<open>What a discovery collects\<close>

text \<open>The walk returns the error of the first directory it cannot read. On a tree
  without such a directory it collects the eligible names of the entries that are not
  directories at every depth, and the catalog is their sorted list.\<close>

lemma eligible_dirent: "eligible (DirEntry n b) = (\<not> b \<and> eligibleName n)"
  by (simp add: eligible_def eligibleName_def)

lemma walk_error:
  "snd (walkDir n (walkFn v) (d, lg)) = firstError n"
  "snd (walkDirs ns (walkFn v) (d, lg)) = firstErrorAll ns"
proof (induction n and ns arbitrary: d lg and d lg rule: firstError_firstErrorAll.induct)
  case (1 n)
  show ?case by simp
next
  case (2 n cs)
  then show ?case by (simp add: eligible_dirent)
next
  case (3 n e cs)
  show ?case by (simp add: eligible_dirent)
next
  case 4
  show ?case by simp
next
  case (5 c cs)
  obtain d1 lg1 e1 where w: "walkDir c (walkFn v) (d, lg) = ((d1, lg1), e1)"
    by (metis surj_pair)
  with 5(1) [of d lg] have e1: "e1 = firstError c" by simp
  show ?case
  proof (cases e1)
    case None
    with w e1 5(2) [of d1 lg1] show ?thesis by simp
  next
    case (Some e)
    with e1 have "firstError c = Some e" by simp
    with w Some show ?thesis by simp
  qed
qed

lemma WalkDir_error: "snd (WalkDir root (walkFn v) (d, lg)) = scanError root"
  by (cases root) (simp_all add: WalkDir_def scanError_def walk_error)

lemma walk_readable:
  "firstError n = None \<Longrightarrow>
     walkDir n (walkFn v) (d, lg) = ((d @ filter eligibleName (filesBelow n), lg), None)"
  "firstErrorAll ns = None \<Longrightarrow>
     walkDirs ns (walkFn v) (d, lg) = ((d @ filter eligibleName (filesBelowAll ns), lg), None)"
proof (induction n and ns arbitrary: d and d rule: filesBelow_filesBelowAll.induct)
  case (1 n)
  show ?case by (simp add: eligible_dirent)
next
  case (2 n cs)
  then show ?case by (simp add: eligible_dirent)
next
  case (3 n e cs)
  then show ?case by simp
next
  case 4
  show ?case by simp
next
  case (5 c cs)
  then show ?case by (simp split: option.splits)
qed

lemma discover_readable:
  assumes "firstError n = None"
  shows "snd (discoverBadges v (Root n) now st)
           = st\<lparr>badgeFilesList := sort (filter eligibleName (filesBelow n)),
                lastDiscoveryTime := now\<rparr>"
  using walk_readable(1) [OF assms, of v "[]" "[LogDiscovering]"]
  by (simp add: discoverBadges_def WalkDir_def)

lemma discover_sorted:
  assumes "firstError n = None"
  shows "sorted (badgeFilesList (snd (discoverBadges v (Root n) now st)))"
    and "set (badgeFilesList (snd (discoverBadges v (Root n) now st)))
           = {f \<in> set (filesBelow n). eligibleName f}"
  by (simp_all add: discover_readable [OF assms])

lemma discover_failed:
  assumes "scanError root = Some err"
  shows "snd (discoverBadges v root now st) = st"
    and "\<exists>lg. fst (discoverBadges v root now st) = lg @ [LogDiscoveryError err]"
  using assms WalkDir_error [of root v "[]" "[LogDiscovering]"]
  by (auto simp: discoverBadges_def split: prod.splits option.splits)

text \<open>Two entries of the same name at different depths are both collected.\<close>

lemma discover_twins:
  "badgeFilesList (snd (discoverBadges v twinDir now st)) = [''a.gif'', ''a.gif'']"
proof -
  have "firstError (Dir ''badges'' [File ''a.gif'', Dir ''sub'' [File ''a.gif'']]) = None"
    by simp
  from discover_readable [OF this, of v now st] show ?thesis
    by (simp add: twinDir_def eligibleName_def HasSuffix_def ToLower_def toLowerChar_def)
qed

section \<open>The state a handler leaves\<close>

lemma main1_state:
  "fst (badgeHandler_main1 g rq st0) =
     (if Since (nowSince rq) (lastDiscoveryTime st0) > discoveryInterval
      then snd (discoverBadges True (badgesTree rq) (nowDiscovery rq) st0) else st0)"
proof -
  obtain lg1 st where r: "(if Since (nowSince rq) (lastDiscoveryTime st0) > discoveryInterval
            then discoverBadges True (badgesTree rq) (nowDiscovery rq) st0 else ([], st0)) = (lg1, st)"
    by (metis surj_pair)
  have "fst (badgeHandler_main1 g rq st0) = st"
  proof (cases "badgeFilesList st = []")
    case True
    from badgeHandler_main1_empty [OF r True, of g] show ?thesis by simp
  next
    case False
    from badgeHandler_main1_serves [OF r False, of g] show ?thesis by auto
  qed
  with r show ?thesis by (auto split: if_splits)
qed

lemma main2_state:
  "fst (badgeHandler_main2 g rq st0) =
     (if Since (nowSince rq) (lastDiscoveryTime st0) > discoveryInterval
      then snd (discoverBadges False (badgesTree rq) (nowDiscovery rq) st0) else st0)"
proof -
  obtain lg1 st where r: "(if Since (nowSince rq) (lastDiscoveryTime st0) > discoveryInterval
            then discoverBadges False (badgesTree rq) (nowDiscovery rq) st0 else ([], st0)) = (lg1, st)"
    by (metis surj_pair)
  obtain lgs slot where n: "normalizeSlot_main2 (queryGet (slotQuery rq)) (Atoi (queryGet (slotQuery rq))) = (lgs, slot)"
    by (metis surj_pair)
  have "fst (badgeHandler_main2 g rq st0) = st"
  proof (cases "badgeFilesList st = []")
    case True
    from badgeHandler_main2_empty [OF r True, of g] show ?thesis by simp
  next
    case False
    from badgeHandler_main2_serves [OF r False n, of g] show ?thesis by auto
  qed
  with r show ?thesis by (auto split: if_splits)
qed

lemma internal_state: "fst (badgeHandlerInternal g rq st) = st"
proof (cases "badgeFilesList st = []")
  case True
  from badgeHandlerInternal_empty [OF True, of g rq] show ?thesis by simp
next
  case False
  from badgeHandlerInternal_serves [OF False, of g rq] show ?thesis by (auto split: if_splits)
qed

lemma Handler_state:
  "fst (Handler g rt rq st0) =
     (if badgeFilesList st0 = [] \<or> Since (nowSince rq) (lastDiscoveryTime st0) > discoveryInterval
      then snd (discoverBadges True (badgesTree rq) (nowDiscovery rq) st0) else st0)"
proof -
  let ?c = "length (badgeFilesList st0) = 0 \<or> Since (nowSince rq) (lastDiscoveryTime st0) > discoveryInterval"
  obtain lg1 st where r: "(if ?c
            then discoverBadges True (badgesTree rq) (nowDiscovery rq) st0 else ([], st0)) = (lg1, st)"
    by (metis surj_pair)
  obtain st' lg2 resp where h: "badgeHandlerInternal g rq st = (st', lg2, resp)"
    by (metis surj_pair)
  with internal_state [of g rq st] have "st' = st" by simp
  with r h have "fst (Handler g rt rq st0) = st"
    by (simp add: Handler_def Let_def split: route.splits)
  with r show ?thesis by (auto split: if_splits)
qed

section \<open>The seed\<close>

lemma baseSeedOf_nonneg: "0 \<le> t \<Longrightarrow> baseSeedOf t = t div 2"
  by (simp add: baseSeedOf_def timeWindowSeconds_def signed_divide_int_def sgn_if)

section \<open>The defensive branches in the handlers\<close>

text \<open>No handler panics, takes the fallback branch, or answers with a selection error.\<close>

lemma discover_no_selection_events:
  assumes "x \<in> set (fst (discoverBadges v root now st))"
  shows "x \<noteq> LogFallbackWarning \<and> x \<noteq> LogSelectError \<and> x \<noteq> LogEmptyIndices"
  using discover_logs_only [OF assms] by auto

lemma ServeFile_not_selection_error:
  "ServeFile stat hdrs p \<noteq> HttpError 500 ''Error selecting badge''"
  "ServeFile stat hdrs p \<noteq> HttpError 500 ''Error selecting badge (empty internal list)''"
  by (simp_all add: ServeFile_def split: option.splits os_error.splits)

lemma main1_skips_defensive_branches:
  "(\<forall>p. responseOf (badgeHandler_main1 g rq st0) \<noteq> Inl p)
   \<and> responseOf (badgeHandler_main1 g rq st0) \<noteq> Inr (HttpError 500 ''Error selecting badge'')
   \<and> responseOf (badgeHandler_main1 g rq st0)
        \<noteq> Inr (HttpError 500 ''Error selecting badge (empty internal list)'')
   \<and> LogFallbackWarning \<notin> set (logOf (badgeHandler_main1 g rq st0))
   \<and> LogSelectError \<notin> set (logOf (badgeHandler_main1 g rq st0))"
proof -
  obtain lg1 st where r: "(if Since (nowSince rq) (lastDiscoveryTime st0) > discoveryInterval
            then discoverBadges True (badgesTree rq) (nowDiscovery rq) st0 else ([], st0)) = (lg1, st)"
    by (metis surj_pair)
  have lg1: "LogFallbackWarning \<notin> set lg1 \<and> LogSelectError \<notin> set lg1"
    using r discover_no_selection_events [of _ True "badgesTree rq" "nowDiscovery rq" st0]
    by (auto split: if_splits)
  show ?thesis
  proof (cases "badgeFilesList st = []")
    case True
    from badgeHandler_main1_empty [OF r True, of g] lg1 show ?thesis
      by (simp add: logOf_def responseOf_def)
  next
    case False
    from badgeHandler_main1_serves [OF r False, of g] obtain f lg where
      "badgeHandler_main1 g rq st0 = (st, lg1 @ [LogServing lg (baseSeedOf (nowUnix rq)) (filePathOf f)],
          Inr (ServeFile (statFile rq) (headersFor f) (filePathOf f)))"
      by blast
    with lg1 show ?thesis
      by (simp add: logOf_def responseOf_def ServeFile_not_selection_error)
  qed
qed

lemma main2_skips_defensive_branches:
  "(\<forall>p. responseOf (badgeHandler_main2 g rq st0) \<noteq> Inl p)
   \<and> responseOf (badgeHandler_main2 g rq st0) \<noteq> Inr (HttpError 500 ''Error selecting badge'')
   \<and> responseOf (badgeHandler_main2 g rq st0)
        \<noteq> Inr (HttpError 500 ''Error selecting badge (empty internal list)'')
   \<and> LogFallbackWarning \<notin> set (logOf (badgeHandler_main2 g rq st0))
   \<and> LogSelectError \<notin> set (logOf (badgeHandler_main2 g rq st0))"
proof -
  obtain lg1 st where r: "(if Since (nowSince rq) (lastDiscoveryTime st0) > discoveryInterval
            then discoverBadges False (badgesTree rq) (nowDiscovery rq) st0 else ([], st0)) = (lg1, st)"
    by (metis surj_pair)
  obtain lgs slot where n: "normalizeSlot_main2 (queryGet (slotQuery rq)) (Atoi (queryGet (slotQuery rq))) = (lgs, slot)"
    by (metis surj_pair)
  then have lgs: "LogFallbackWarning \<notin> set lgs \<and> LogSelectError \<notin> set lgs"
    by (auto simp: normalizeSlot_main2_def split: sum.splits if_splits)
  have lg1: "LogFallbackWarning \<notin> set lg1 \<and> LogSelectError \<notin> set lg1"
    using r discover_no_selection_events [of _ False "badgesTree rq" "nowDiscovery rq" st0]
    by (auto split: if_splits)
  show ?thesis
  proof (cases "badgeFilesList st = []")
    case True
    from badgeHandler_main2_empty [OF r True, of g] lg1 show ?thesis
      by (simp add: logOf_def responseOf_def)
  next
    case False
    from badgeHandler_main2_serves [OF r False n, of g] obtain f where
      "badgeHandler_main2 g rq st0 = (st, lg1 @ lgs @ [LogServing slot (baseSeedOf (nowUnix rq)) (filePathOf f)],
          Inr (ServeFile (statFile rq) (headersFor f) (filePathOf f)))"
      by blast
    with lg1 lgs show ?thesis
      by (simp add: logOf_def responseOf_def ServeFile_not_selection_error)
  qed
qed

lemma internal_skips_defensive_branches:
  "(\<forall>p. responseOf (badgeHandlerInternal g rq st) \<noteq> Inl p)
   \<and> responseOf (badgeHandlerInternal g rq st) \<noteq> Inr (HttpError 500 ''Error selecting badge'')
   \<and> responseOf (badgeHandlerInternal g rq st)
        \<noteq> Inr (HttpError 500 ''Error selecting badge (empty internal list)'')
   \<and> LogFallbackWarning \<notin> set (logOf (badgeHandlerInternal g rq st))
   \<and> LogSelectError \<notin> set (logOf (badgeHandlerInternal g rq st))
   \<and> LogEmptyIndices \<notin> set (logOf (badgeHandlerInternal g rq st))"
proof (cases "badgeFilesList st = []")
  case True
  from badgeHandlerInternal_empty [OF True, of g rq] show ?thesis
    by (simp add: logOf_def responseOf_def)
next
  case False
  from badgeHandlerInternal_serves [OF False, of g rq] obtain f where
    "badgeHandlerInternal g rq st =
               (if statFile rq (filePathOf f) = Some NotExist then
                  (st, [LogServing (normalizeSlot_vercel (Atoi (queryGet (slotQuery rq))))
                             (baseSeedOf (nowUnix rq)) (filePathOf f), LogFileNotFound (filePathOf f)],
                   Inr (HttpError 404 (notFoundMessage f)))
                else
                  (st, [LogServing (normalizeSlot_vercel (Atoi (queryGet (slotQuery rq))))
                             (baseSeedOf (nowUnix rq)) (filePathOf f)],
                   Inr (ServeFile (statFile rq) (headersFor f) (filePathOf f))))"
    by blast
  then show ?thesis
    by (simp add: logOf_def responseOf_def ServeFile_not_selection_error)
qed

section \<open>Claims\<close>

text \<open>
  C1. For every non-empty catalog and every value of the slot parameter (\<open>r\<close> is any
  outcome of \<^verbatim>\<open>strconv.Atoi\<close>), selection is well defined in the three variants: the
  shuffle of the index range returns a slice \<open>ys\<close> of the catalog's length, the picked
  position \<open>(slot - 1) mod N\<close> is below the length of \<open>ys\<close>, the index stored there is
  below the length of the catalog, no access panics, and the file name returned is an
  element of the catalog.
\<close>

theorem selection_within_bounds:
  assumes "badges \<noteq> []"
  shows "\<exists>ys k1 k2 k3.
           Shuffle g seed (length badges) [0..<length badges] = Inr ys
         \<and> length ys = length badges
         \<and> k1 = nat ((normalizeSlot_main1 r - 1) mod int (length badges))
         \<and> k1 < length ys \<and> ys ! k1 < length badges
         \<and> badges ! (ys ! k1) \<in> set badges
         \<and> select_main1 g badges seed (normalizeSlot_main1 r) = Inr ([], Inr (badges ! (ys ! k1)))
         \<and> k2 = nat ((snd (normalizeSlot_main2 slotStr r) - 1) mod int (length badges))
         \<and> k2 < length ys \<and> ys ! k2 < length badges
         \<and> badges ! (ys ! k2) \<in> set badges
         \<and> select_main2 g badges seed (snd (normalizeSlot_main2 slotStr r))
             = Inr ([], Inr (badges ! (ys ! k2)))
         \<and> k3 = nat ((normalizeSlot_vercel r - 1) mod int (length badges))
         \<and> k3 < length ys \<and> ys ! k3 < length badges
         \<and> badges ! (ys ! k3) \<in> set badges
         \<and> select_vercel g badges seed (normalizeSlot_vercel r) = Inr ([], Inr (badges ! (ys ! k3)))"
proof -
  let ?n = "length badges"
  obtain ys where ys: "Shuffle g seed ?n [0..<?n] = Inr ys" "length ys = ?n" "set ys = {0..<?n}"
    by (rule Shuffle_range [of g seed ?n])
  from assms have n: "0 < ?n" by simp
  have pos: "nat ((s - 1) mod int ?n) < length ys" if "1 \<le> s" for s
    using slot_position [OF that n] ys(2) by simp
  have inr: "ys ! nat ((s - 1) mod int ?n) < ?n" if "1 \<le> s" for s
    using picked_in_range [OF assms that ys(2,3)] .
  have mem: "badges ! (ys ! nat ((s - 1) mod int ?n)) \<in> set badges" if "1 \<le> s" for s
    using inr [OF that] by simp
  note s1 = normalizeSlot_main1_ge [of r]
  note s2 = normalizeSlot_main2_ge [of slotStr r]
  note s3 = normalizeSlot_vercel_ge [of r]
  show ?thesis
    using ys(1,2) pos [OF s1] inr [OF s1] mem [OF s1] select_main1_pick [OF assms s1 ys]
      pos [OF s2] inr [OF s2] mem [OF s2] select_main1_pick [OF assms s2 ys]
      pos [OF s3] inr [OF s3] mem [OF s3] select_vercel_pick [OF assms s3 ys]
    by (simp add: select_main2_eq_main1)
qed

theorem selection_within_bounds_witness:
  "[''a.gif'', ''b.png'', ''c.GIF''] \<noteq> []
   \<and> (\<exists>f. f \<in> set [''a.gif'', ''b.png'', ''c.GIF'']
          \<and> select_main1 lcg [''a.gif'', ''b.png'', ''c.GIF''] 50 (normalizeSlot_main1 (Atoi ''7''))
              = Inr ([], Inr f))"
proof -
  have h: "[''a.gif'', ''b.png'', ''c.GIF''] \<noteq> []" by simp
  from selection_within_bounds [OF h, of lcg 50 "Atoi ''7''" "''7''"] show ?thesis
    by (metis h)
qed

text \<open>
  C2 (as amended). For one seed and a catalog of \<open>N\<close> file names without repetition,
  \<open>main1\<close> and \<open>vercel\<close> map the slots \<open>1..N\<close> one-to-one onto the catalog: there is
  a bijection \<open>f\<close> from \<open>{1..N}\<close> to the catalog that both selections return. \<open>main2\<close>
  returns the same \<open>f\<close> on the slots \<open>1..min N 3\<close>, which it accepts unchanged, so it
  is one-to-one on those.
\<close>

theorem slots_biject_catalog:
  assumes "distinct badges"
  shows "\<exists>f. bij_betw f {1..int (length badges)} (set badges)
         \<and> (\<forall>s\<in>{1..int (length badges)}.
               select_main1 g badges seed (normalizeSlot_main1 (Inr s)) = Inr ([], Inr (f s))
             \<and> select_vercel g badges seed (normalizeSlot_vercel (Inr s)) = Inr ([], Inr (f s)))
         \<and> (\<forall>s\<in>{1..min (int (length badges)) numBadgeSlots}.
               select_main2 g badges seed (snd (normalizeSlot_main2 slotStr (Inr s)))
                 = Inr ([], Inr (f s)))"
proof (cases "badges = []")
  case True
  then show ?thesis by (simp add: bij_betw_def)
next
  case False
  let ?n = "length badges"
  from False have n: "0 < ?n" by simp
  obtain ys where ys: "Shuffle g seed ?n [0..<?n] = Inr ys" "length ys = ?n"
    "distinct ys" "set ys = {0..<?n}"
    by (rule Shuffle_range [of g seed ?n])
  define f where "f s = badges ! (ys ! nat ((s - 1) mod int ?n))" for s :: int
  have pos: "nat ((s - 1) mod int ?n) = nat (s - 1) \<and> nat (s - 1) < ?n"
    if "s \<in> {1..int ?n}" for s
    using that by auto
  have inj: "inj_on f {1..int ?n}"
  proof (rule inj_onI)
    fix s t assume s: "s \<in> {1..int ?n}" and t: "t \<in> {1..int ?n}" and eq: "f s = f t"
    from pos [OF s] pos [OF t] ys(2,4) have
      bs: "ys ! nat (s - 1) < ?n" and bt: "ys ! nat (t - 1) < ?n"
      by (metis atLeastLessThan_iff nth_mem)+
    from eq pos [OF s] pos [OF t] have "badges ! (ys ! nat (s - 1)) = badges ! (ys ! nat (t - 1))"
      by (simp add: f_def)
    with assms bs bt have "ys ! nat (s - 1) = ys ! nat (t - 1)"
      by (simp add: nth_eq_iff_index_eq)
    with ys(2,3) pos [OF s] pos [OF t] have "nat (s - 1) = nat (t - 1)"
      by (simp add: nth_eq_iff_index_eq)
    with s t show "s = t" by auto
  qed
  have sub: "f ` {1..int ?n} \<subseteq> set badges"
  proof
    fix x assume "x \<in> f ` {1..int ?n}"
    then obtain s where s: "s \<in> {1..int ?n}" "x = f s" by blast
    from s(1) have "1 \<le> s" by simp
    from picked_in_range [OF False this ys(2,4)] s(2) show "x \<in> set badges"
      by (simp add: f_def)
  qed
  have "card (f ` {1..int ?n}) = card (set badges)"
    using inj assms by (simp add: card_image distinct_card)
  with sub have img: "f ` {1..int ?n} = set badges"
    by (simp add: card_subset_eq)
  have bij: "bij_betw f {1..int ?n} (set badges)"
    using inj img by (simp add: bij_betw_def)
  have sel1: "select_main1 g badges seed s = Inr ([], Inr (f s))" if "1 \<le> s" for s
    using select_main1_pick [OF False that ys(1,2,4)] by (simp add: f_def)
  have sel3: "select_vercel g badges seed s = Inr ([], Inr (f s))" if "1 \<le> s" for s
    using select_vercel_pick [OF False that ys(1,2,4)] by (simp add: f_def)
  have a: "\<forall>s\<in>{1..int ?n}.
               select_main1 g badges seed (normalizeSlot_main1 (Inr s)) = Inr ([], Inr (f s))
             \<and> select_vercel g badges seed (normalizeSlot_vercel (Inr s)) = Inr ([], Inr (f s))"
    by (simp add: normalize_Inr sel1 sel3)
  have b: "\<forall>s\<in>{1..min (int ?n) numBadgeSlots}.
               select_main2 g badges seed (snd (normalizeSlot_main2 slotStr (Inr s)))
                 = Inr ([], Inr (f s))"
    by (simp add: normalize_Inr sel1 select_main2_eq_main1)
  from bij a b show ?thesis by blast
qed

theorem slots_biject_catalog_witness:
  "distinct [''a.gif'', ''b.png'', ''c.GIF'']
   \<and> (2::int) \<in> {1..int (length [''a.gif'', ''b.png'', ''c.GIF''])}
   \<and> (\<exists>f. bij_betw f {1..3::int} (set [''a.gif'', ''b.png'', ''c.GIF''])
        \<and> select_main1 lcg [''a.gif'', ''b.png'', ''c.GIF''] 50 (normalizeSlot_main1 (Inr 2))
            = Inr ([], Inr (f (2::int))))"
proof -
  have h: "distinct [''a.gif'', ''b.png'', ''c.GIF'']" by simp
  have m: "(2::int) \<in> {1..int (length [''a.gif'', ''b.png'', ''c.GIF''])}" by simp
  from slots_biject_catalog [OF h, of lcg 50 "''2''"] obtain f where
    f: "bij_betw f {1..int (length [''a.gif'', ''b.png'', ''c.GIF''])} (set [''a.gif'', ''b.png'', ''c.GIF''])"
    "\<forall>s\<in>{1..int (length [''a.gif'', ''b.png'', ''c.GIF''])}.
        select_main1 lcg [''a.gif'', ''b.png'', ''c.GIF''] 50 (normalizeSlot_main1 (Inr s)) = Inr ([], Inr (f s))
      \<and> select_vercel lcg [''a.gif'', ''b.png'', ''c.GIF''] 50 (normalizeSlot_vercel (Inr s)) = Inr ([], Inr (f s))"
    by blast
  from f(2) m have "select_main1 lcg [''a.gif'', ''b.png'', ''c.GIF''] 50 (normalizeSlot_main1 (Inr 2))
            = Inr ([], Inr (f 2))" by blast
  with f(1) h m show ?thesis by auto
qed

text \<open>
  C2 as stated fails in \<open>main2\<close>: with four distinct badges, slot 4 is above
  \<^verbatim>\<open>numBadgeSlots\<close> and is served as slot 1, so slots 1 and 4 get the same file in the
  same window.
\<close>

theorem slots_biject_catalog_counterexample:
  "distinct [''a.gif'', ''b.png'', ''c.GIF'', ''d.png'']
   \<and> Atoi ''1'' = Inr 1 \<and> Atoi ''4'' = Inr 4
   \<and> select_main2 lcg [''a.gif'', ''b.png'', ''c.GIF'', ''d.png''] 50
        (snd (normalizeSlot_main2 ''1'' (Atoi ''1'')))
     = select_main2 lcg [''a.gif'', ''b.png'', ''c.GIF'', ''d.png''] 50
        (snd (normalizeSlot_main2 ''4'' (Atoi ''4'')))
   \<and> responseOf (badgeHandler_main2 lcg (requestAt (Some ''1'') flatDir allPresent)
        \<lparr>badgeFilesList = [''a.gif'', ''b.png'', ''c.GIF'', ''d.png''], lastDiscoveryTime = 0\<rparr>)
     = responseOf (badgeHandler_main2 lcg (requestAt (Some ''4'') flatDir allPresent)
        \<lparr>badgeFilesList = [''a.gif'', ''b.png'', ''c.GIF'', ''d.png''], lastDiscoveryTime = 0\<rparr>)"
proof -
  let ?badges = "[''a.gif'', ''b.png'', ''c.GIF'', ''d.png'']"
  have a: "Atoi ''1'' = Inr 1" "Atoi ''4'' = Inr 4"
    by (simp_all add: Atoi_def isDigit_def)
  have n: "normalizeSlot_main2 ''1'' (Inr 1) = ([], 1)"
    "normalizeSlot_main2 ''4'' (Inr 4) = ([LogInvalidSlot ''4''], 1)"
    by (simp_all add: normalizeSlot_main2_def numBadgeSlots_def)
  have f: "\<not> discoveryInterval < Since 1000000000 0"
    by (simp add: Since_def discoveryInterval_def maxDuration_def)
  have "responseOf (badgeHandler_main2 lcg (requestAt (Some ''1'') flatDir allPresent)
        \<lparr>badgeFilesList = ?badges, lastDiscoveryTime = 0\<rparr>)
     = responseOf (badgeHandler_main2 lcg (requestAt (Some ''4'') flatDir allPresent)
        \<lparr>badgeFilesList = ?badges, lastDiscoveryTime = 0\<rparr>)"
    by (cases "select_main2 lcg ?badges (baseSeedOf 100) 1")
      (auto simp: badgeHandler_main2_def requestAt_def queryGet_def a n f responseOf_def Let_def
        split: sum.splits)
  then show ?thesis by (simp add: a n)
qed

text \<open>
  C3 (as amended). A discovery writes \<open>LogDiscovering\<close> first, and nothing else writes
  it, so the event is in the log of a request exactly when the request triggered a
  refresh. In the \<open>vercel\<close> entry point \<^verbatim>\<open>Handler\<close> that is exactly when the snapshot
  is empty or older than the interval of 5 minutes. In \<open>main1\<close> and \<open>main2\<close> it is
  exactly when the snapshot is older than the interval: an empty snapshot alone does not
  trigger a refresh there. \<^verbatim>\<open>badgeHandlerInternal\<close> on its own never refreshes.
\<close>

theorem refresh_trigger:
  "(LogDiscovering \<in> set (logOf (Handler g rt rq st))
      \<longleftrightarrow> badgeFilesList st = [] \<or> Since (nowSince rq) (lastDiscoveryTime st) > discoveryInterval)
   \<and> (LogDiscovering \<in> set (logOf (badgeHandler_main1 g rq st))
      \<longleftrightarrow> Since (nowSince rq) (lastDiscoveryTime st) > discoveryInterval)
   \<and> (LogDiscovering \<in> set (logOf (badgeHandler_main2 g rq st))
      \<longleftrightarrow> Since (nowSince rq) (lastDiscoveryTime st) > discoveryInterval)
   \<and> LogDiscovering \<notin> set (logOf (badgeHandlerInternal g rq st))"
  using LogDiscovering_Handler LogDiscovering_main1 LogDiscovering_main2 LogDiscovering_internal
  by blast


text \<open>
  C3 as stated fails in \<open>main1\<close> and \<open>main2\<close>: the program starts on an empty badge
  directory at time 0, so the snapshot is empty and fresh; a request one second later
  answers 404 without a scan, although five files are in the directory by then.
\<close>

theorem refresh_trigger_counterexample:
  "badgeFilesList (snd (discoverBadges True emptyDir 0 startState)) = []
   \<and> badgeFilesList (snd (discoverBadges False emptyDir 0 startState)) = []
   \<and> badgeHandler_main1 lcg (requestAt None flatDir allPresent)
        (snd (discoverBadges True emptyDir 0 startState))
      = (snd (discoverBadges True emptyDir 0 startState), [LogNoBadges],
         Inr (HttpError 404 ''No badges available''))
   \<and> badgeHandler_main2 lcg (requestAt None flatDir allPresent)
        (snd (discoverBadges False emptyDir 0 startState))
      = (snd (discoverBadges False emptyDir 0 startState), [LogNoBadges],
         Inr (HttpError 404 ''No badges available''))"
  by (simp add: discoverBadges_def emptyDir_def startState_def WalkDir_def eligible_def
      badgeHandler_main1_def badgeHandler_main2_def requestAt_def Since_def maxDuration_def discoveryInterval_def)

text \<open>
  C4 (as amended). The slot is 1 when the parameter is absent, when \<^verbatim>\<open>strconv.Atoi\<close>
  rejects it, and when the parsed value is below 1. \<open>main1\<close> and \<open>vercel\<close> keep every
  parsed value from 1 upwards and enforce no upper bound. \<open>main2\<close> keeps the values 1 to
  \<^verbatim>\<open>numBadgeSlots = 3\<close> and sets every larger value to 1.
\<close>

theorem slot_normalisation:
  "normalizeSlot_main1 (Atoi (queryGet None)) = 1
   \<and> normalizeSlot_vercel (Atoi (queryGet None)) = 1
   \<and> snd (normalizeSlot_main2 (queryGet None) (Atoi (queryGet None))) = 1
   \<and> (r = Inl e \<longrightarrow>
         normalizeSlot_main1 r = 1 \<and> normalizeSlot_vercel r = 1
       \<and> snd (normalizeSlot_main2 slotStr r) = 1)
   \<and> (r = Inr v \<and> v < 1 \<longrightarrow>
         normalizeSlot_main1 r = 1 \<and> normalizeSlot_vercel r = 1
       \<and> snd (normalizeSlot_main2 slotStr r) = 1)
   \<and> (r = Inr v \<and> 1 \<le> v \<longrightarrow> normalizeSlot_main1 r = v \<and> normalizeSlot_vercel r = v)
   \<and> (r = Inr v \<and> 1 \<le> v \<and> v \<le> numBadgeSlots \<longrightarrow> snd (normalizeSlot_main2 slotStr r) = v)
   \<and> (r = Inr v \<and> numBadgeSlots < v \<longrightarrow> snd (normalizeSlot_main2 slotStr r) = 1)"
  by (auto simp: normalizeSlot_main1_def normalizeSlot_vercel_def normalizeSlot_main2_def
      queryGet_def Atoi_def numBadgeSlots_def)

theorem slot_normalisation_witness:
  "Atoi ''abc'' = Inl NumError \<and> normalizeSlot_main1 (Atoi ''abc'') = 1
   \<and> Atoi ''-2'' = Inr (- 2) \<and> (- 2 :: int) < 1 \<and> normalizeSlot_vercel (Atoi ''-2'') = 1
   \<and> Atoi ''7'' = Inr 7 \<and> (1::int) \<le> 7 \<and> normalizeSlot_main1 (Atoi ''7'') = 7
   \<and> numBadgeSlots < 7 \<and> snd (normalizeSlot_main2 ''7'' (Atoi ''7'')) = 1
   \<and> Atoi ''2'' = Inr 2 \<and> (1::int) \<le> 2 \<and> 2 \<le> numBadgeSlots
   \<and> snd (normalizeSlot_main2 ''2'' (Atoi ''2'')) = 2"
proof -
  have a: "Atoi ''abc'' = Inl NumError" "Atoi ''-2'' = Inr (- 2)" "Atoi ''7'' = Inr 7"
    "Atoi ''2'' = Inr 2"
    by (simp_all add: Atoi_def isDigit_def)
  have n: "numBadgeSlots < 7" "2 \<le> numBadgeSlots" by (simp_all add: numBadgeSlots_def)
  from slot_normalisation [of "Atoi ''abc''" NumError "''abc''" 0]
    slot_normalisation [of "Atoi ''-2''" NumError "''-2''" "- 2"]
    slot_normalisation [of "Atoi ''7''" NumError "''7''" 7]
    slot_normalisation [of "Atoi ''2''" NumError "''2''" 2]
    a n
  show ?thesis by simp
qed

text \<open>
  C4 as stated fails in \<open>main2\<close>: the parameter \<^verbatim>\<open>4\<close> parses to the integer 4, which is
  not below 1, and is set to 1 with the invalid-slot line logged.
\<close>

theorem slot_normalisation_counterexample:
  "Atoi ''4'' = Inr 4 \<and> (1::int) \<le> 4
   \<and> normalizeSlot_main2 ''4'' (Atoi ''4'') = ([LogInvalidSlot ''4''], 1)"
  by (simp add: Atoi_def isDigit_def normalizeSlot_main2_def numBadgeSlots_def)

text \<open>
  C5, at an input where the code departs from it. The badge directory holds no file of
  its own and one subdirectory \<^verbatim>\<open>sub\<close> with the file \<^verbatim>\<open>x.gif\<close>. The walk descends
  into \<^verbatim>\<open>sub\<close> and the catalog after the discovery is \<^verbatim>\<open>x.gif\<close>, a file found inside
  a subdirectory. The handler then resolves the name against the badge directory itself,
  \<^verbatim>\<open>badges/x.gif\<close>, which does not exist, and answers 404.
\<close>

theorem discovery_descends:
  "discoverBadges True nestedDir 0 startState
     = ([LogDiscovering, LogDiscovered 1 [''x.gif'']],
        \<lparr>badgeFilesList = [''x.gif''], lastDiscoveryTime = 0\<rparr>)
   \<and> Handler lcg BadgeRoute (requestAt (Some ''1'') nestedDir nestedStat) startState
     = (\<lparr>badgeFilesList = [''x.gif''], lastDiscoveryTime = 1000000001\<rparr>,
        [LogDiscovering, LogDiscovered 1 [''x.gif''],
         LogServing 1 50 ''badges/x.gif'', LogFileNotFound ''badges/x.gif''],
        Inr (HttpError 404 (notFoundMessage ''x.gif'')))"
proof -
  have lower: "ToLower ''x.gif'' = ''x.gif''" "ToLower ''sub'' = ''sub''" "ToLower ''badges'' = ''badges''"
    by (simp_all add: ToLower_def toLowerChar_def)
  have d: "discoverBadges True nestedDir t startState
     = ([LogDiscovering, LogDiscovered 1 [''x.gif'']],
        \<lparr>badgeFilesList = [''x.gif''], lastDiscoveryTime = t\<rparr>)" for t
    by (simp add: discoverBadges_def nestedDir_def startState_def WalkDir_def eligible_def
        lower HasSuffix_def)
  have sel: "select_vercel lcg [''x.gif''] seed 1 = Inr ([], Inr ''x.gif'')" for seed
    by (simp add: select_vercel_def Shuffle_def go_rem_def index_def)
  have a: "Atoi ''1'' = Inr 1" by (simp add: Atoi_def isDigit_def)
  have b: "baseSeedOf 100 = 50"
    by (simp add: baseSeedOf_def timeWindowSeconds_def signed_divide_int_def)
  have h: "badgeHandlerInternal lcg (requestAt (Some ''1'') nestedDir nestedStat)
             \<lparr>badgeFilesList = [''x.gif''], lastDiscoveryTime = 1000000001\<rparr>
     = (\<lparr>badgeFilesList = [''x.gif''], lastDiscoveryTime = 1000000001\<rparr>,
        [LogServing 1 50 ''badges/x.gif'', LogFileNotFound ''badges/x.gif''],
        Inr (HttpError 404 (notFoundMessage ''x.gif'')))"
    by (simp add: badgeHandlerInternal_def requestAt_def queryGet_def a b
        normalizeSlot_vercel_def sel filePathOf_def nestedStat_def Let_def)
  have "Handler lcg BadgeRoute (requestAt (Some ''1'') nestedDir nestedStat) startState
     = (\<lparr>badgeFilesList = [''x.gif''], lastDiscoveryTime = 1000000001\<rparr>,
        [LogDiscovering, LogDiscovered 1 [''x.gif''],
         LogServing 1 50 ''badges/x.gif'', LogFileNotFound ''badges/x.gif''],
        Inr (HttpError 404 (notFoundMessage ''x.gif'')))"
    using h d [of 1000000001]
    by (simp add: Handler_def requestAt_def startState_def)
  with d [of 0] show ?thesis by simp
qed

text \<open>
  C6. When the scan of the badge directory fails (the root cannot be read, or a directory
  below it cannot), the walk returns that error and \<^verbatim>\<open>discoverBadges\<close> returns the
  state it was given, catalog and time of the last scan unchanged; the last line it logs
  is the error, and it returns normally. A request that meets such a directory, whether
  it triggers a refresh or not, leaves the state unchanged in each variant.
\<close>

theorem scan_error_keeps_catalog:
  assumes "scanError root = Some err"
  shows "snd (WalkDir root (walkFn verbose) ([], [LogDiscovering])) = Some err
       \<and> snd (discoverBadges verbose root now st) = st
       \<and> (\<exists>lg. fst (discoverBadges verbose root now st) = lg @ [LogDiscoveryError err])
       \<and> (badgesTree rq = root \<longrightarrow>
            fst (badgeHandler_main1 g rq st) = st
          \<and> fst (badgeHandler_main2 g rq st) = st
          \<and> fst (Handler g rt rq st) = st)"
  using assms discover_failed [OF assms]
  by (simp add: WalkDir_error main1_state main2_state Handler_state)

theorem scan_error_keeps_catalog_witness:
  "scanError lockedDir = Some Permission
   \<and> discoverBadges True lockedDir 7 \<lparr>badgeFilesList = [''old.gif''], lastDiscoveryTime = 3\<rparr>
     = ([LogDiscovering, LogAccessError Permission, LogDiscoveryError Permission],
        \<lparr>badgeFilesList = [''old.gif''], lastDiscoveryTime = 3\<rparr>)
   \<and> badgesTree (requestAt None lockedDir allPresent) = lockedDir
   \<and> fst (badgeHandler_main1 lcg (requestAt None lockedDir allPresent)
        \<lparr>badgeFilesList = [''old.gif''], lastDiscoveryTime = - 600000000000\<rparr>)
      = \<lparr>badgeFilesList = [''old.gif''], lastDiscoveryTime = - 600000000000\<rparr>"
proof -
  have h: "scanError lockedDir = Some Permission"
    by (simp add: scanError_def lockedDir_def)
  have t: "badgesTree (requestAt None lockedDir allPresent) = lockedDir"
    by (simp add: requestAt_def)
  have "fst (discoverBadges True lockedDir 7 \<lparr>badgeFilesList = [''old.gif''], lastDiscoveryTime = 3\<rparr>)
      = [LogDiscovering, LogAccessError Permission, LogDiscoveryError Permission]"
    by (simp add: discoverBadges_def WalkDir_def lockedDir_def eligible_def HasSuffix_def)
  with h t
    scan_error_keeps_catalog [OF h, where verbose = True and now = 7
      and st = "\<lparr>badgeFilesList = [''old.gif''], lastDiscoveryTime = 3\<rparr>"
      and rq = "requestAt None lockedDir allPresent" and g = lcg and rt = BadgeRoute]
    scan_error_keeps_catalog [OF h, where verbose = True and now = 7
      and st = "\<lparr>badgeFilesList = [''old.gif''], lastDiscoveryTime = - 600000000000\<rparr>"
      and rq = "requestAt None lockedDir allPresent" and g = lcg and rt = BadgeRoute]
  show ?thesis by (simp add: prod_eq_iff)
qed

text \<open>
  C7 (as amended). In \<open>vercel\<close>, when the selected file does not exist at serve time,
  \<^verbatim>\<open>badgeHandlerInternal\<close> answers 404 with a message that contains the file name, logs
  the missing path, and does not call \<^verbatim>\<open>http.ServeFile\<close>. \<open>main1\<close> and \<open>main2\<close> make
  no such check: the path is handed to \<^verbatim>\<open>http.ServeFile\<close>, whose answer for a missing
  file is the library's \<^verbatim>\<open>404 page not found\<close>.
\<close>

theorem missing_file_response:
  assumes "badgeFilesList st \<noteq> []"
  shows "(selectedFilename (select_vercel g (badgeFilesList st) (baseSeedOf (nowUnix rq))
              (normalizeSlot_vercel (Atoi (queryGet (slotQuery rq))))) = Some f
          \<and> statFile rq (filePathOf f) = Some NotExist
          \<longrightarrow> responseOf (badgeHandlerInternal g rq st) = Inr (HttpError 404 (notFoundMessage f))
            \<and> (\<exists>pre post. notFoundMessage f = pre @ f @ post)
            \<and> LogFileNotFound (filePathOf f) \<in> set (logOf (badgeHandlerInternal g rq st)))
       \<and> (\<not> discoveryInterval < Since (nowSince rq) (lastDiscoveryTime st)
          \<and> selectedFilename (select_main1 g (badgeFilesList st) (baseSeedOf (nowUnix rq))
              (normalizeSlot_main1 (Atoi (queryGet (slotQuery rq))))) = Some f
          \<and> statFile rq (filePathOf f) = Some NotExist
          \<longrightarrow> responseOf (badgeHandler_main1 g rq st)
                = Inr (ServeFile (statFile rq) (headersFor f) (filePathOf f))
            \<and> ServeFile (statFile rq) (headersFor f) (filePathOf f)
                = HttpError 404 ''404 page not found'')
       \<and> (\<not> discoveryInterval < Since (nowSince rq) (lastDiscoveryTime st)
          \<and> selectedFilename (select_main2 g (badgeFilesList st) (baseSeedOf (nowUnix rq))
              (snd (normalizeSlot_main2 (queryGet (slotQuery rq))
                     (Atoi (queryGet (slotQuery rq)))))) = Some f
          \<and> statFile rq (filePathOf f) = Some NotExist
          \<longrightarrow> responseOf (badgeHandler_main2 g rq st)
                = Inr (ServeFile (statFile rq) (headersFor f) (filePathOf f))
            \<and> ServeFile (statFile rq) (headersFor f) (filePathOf f)
                = HttpError 404 ''404 page not found'')"
proof (intro conjI impI)
  assume a: "selectedFilename (select_vercel g (badgeFilesList st) (baseSeedOf (nowUnix rq))
              (normalizeSlot_vercel (Atoi (queryGet (slotQuery rq))))) = Some f
          \<and> statFile rq (filePathOf f) = Some NotExist"
  from badgeHandlerInternal_serves [OF assms, of g rq] a
  have r: "badgeHandlerInternal g rq st =
      (st, [LogServing (normalizeSlot_vercel (Atoi (queryGet (slotQuery rq))))
                             (baseSeedOf (nowUnix rq)) (filePathOf f), LogFileNotFound (filePathOf f)],
                   Inr (HttpError 404 (notFoundMessage f)))"
    by (auto simp: selectedFilename_Some)
  from r show "responseOf (badgeHandlerInternal g rq st) = Inr (HttpError 404 (notFoundMessage f))"
    by (simp add: responseOf_def)
  show "\<exists>pre post. notFoundMessage f = pre @ f @ post" by (rule notFoundMessage_names)
  from r show "LogFileNotFound (filePathOf f) \<in> set (logOf (badgeHandlerInternal g rq st))"
    by (simp add: logOf_def)
next
  assume a: "\<not> discoveryInterval < Since (nowSince rq) (lastDiscoveryTime st)
          \<and> selectedFilename (select_main1 g (badgeFilesList st) (baseSeedOf (nowUnix rq))
              (normalizeSlot_main1 (Atoi (queryGet (slotQuery rq))))) = Some f
          \<and> statFile rq (filePathOf f) = Some NotExist"
  then have r: "(if Since (nowSince rq) (lastDiscoveryTime st) > discoveryInterval
            then discoverBadges True (badgesTree rq) (nowDiscovery rq) st else ([], st)) = ([], st)"
    by simp
  from badgeHandler_main1_serves [OF r assms, of g] a
  show "responseOf (badgeHandler_main1 g rq st)
                = Inr (ServeFile (statFile rq) (headersFor f) (filePathOf f))"
    by (auto simp: selectedFilename_Some responseOf_def)
  from a show "ServeFile (statFile rq) (headersFor f) (filePathOf f)
                = HttpError 404 ''404 page not found''"
    by (simp add: ServeFile_def)
next
  assume a: "\<not> discoveryInterval < Since (nowSince rq) (lastDiscoveryTime st)
          \<and> selectedFilename (select_main2 g (badgeFilesList st) (baseSeedOf (nowUnix rq))
              (snd (normalizeSlot_main2 (queryGet (slotQuery rq))
                     (Atoi (queryGet (slotQuery rq)))))) = Some f
          \<and> statFile rq (filePathOf f) = Some NotExist"
  then have r: "(if Since (nowSince rq) (lastDiscoveryTime st) > discoveryInterval
            then discoverBadges False (badgesTree rq) (nowDiscovery rq) st else ([], st)) = ([], st)"
    by simp
  obtain lgs slot where n: "normalizeSlot_main2 (queryGet (slotQuery rq)) (Atoi (queryGet (slotQuery rq))) = (lgs, slot)"
    by (metis surj_pair)
  from badgeHandler_main2_serves [OF r assms n, of g] a n
  show "responseOf (badgeHandler_main2 g rq st)
                = Inr (ServeFile (statFile rq) (headersFor f) (filePathOf f))"
    by (auto simp: selectedFilename_Some responseOf_def)
  from a show "ServeFile (statFile rq) (headersFor f) (filePathOf f)
                = HttpError 404 ''404 page not found''"
    by (simp add: ServeFile_def)
qed

theorem missing_file_response_witness:
  "badgeFilesList \<lparr>badgeFilesList = [''x.gif''], lastDiscoveryTime = 0\<rparr> \<noteq> []
   \<and> selectedFilename (select_vercel lcg [''x.gif''] 50 1) = Some ''x.gif''
   \<and> allMissing (filePathOf ''x.gif'') = Some NotExist
   \<and> responseOf (badgeHandlerInternal lcg (requestAt (Some ''1'') nestedDir allMissing)
        \<lparr>badgeFilesList = [''x.gif''], lastDiscoveryTime = 0\<rparr>)
      = Inr (HttpError 404 (notFoundMessage ''x.gif''))
   \<and> \<not> discoveryInterval < Since 1000000000 0
   \<and> selectedFilename (select_main1 lcg [''x.gif''] 50 1) = Some ''x.gif''
   \<and> responseOf (badgeHandler_main1 lcg (requestAt (Some ''1'') nestedDir allMissing)
        \<lparr>badgeFilesList = [''x.gif''], lastDiscoveryTime = 0\<rparr>)
      = Inr (ServeFile allMissing (headersFor ''x.gif'') (filePathOf ''x.gif''))
   \<and> selectedFilename (select_main2 lcg [''x.gif''] 50 1) = Some ''x.gif''
   \<and> responseOf (badgeHandler_main2 lcg (requestAt (Some ''1'') nestedDir allMissing)
        \<lparr>badgeFilesList = [''x.gif''], lastDiscoveryTime = 0\<rparr>)
      = Inr (ServeFile allMissing (headersFor ''x.gif'') (filePathOf ''x.gif''))"
proof -
  let ?st = "\<lparr>badgeFilesList = [''x.gif''], lastDiscoveryTime = 0\<rparr>"
  let ?rq = "requestAt (Some ''1'') nestedDir allMissing"
  have h: "badgeFilesList ?st \<noteq> []" by simp
  have b: "baseSeedOf (nowUnix ?rq) = 50"
    by (simp add: requestAt_def baseSeedOf_def timeWindowSeconds_def signed_divide_int_def)
  have q: "Atoi (queryGet (slotQuery ?rq)) = Inr 1" "queryGet (slotQuery ?rq) = ''1''"
    by (simp_all add: requestAt_def queryGet_def Atoi_one)
  have n: "normalizeSlot_vercel (Inr 1) = 1" "normalizeSlot_main1 (Inr 1) = 1"
    "snd (normalizeSlot_main2 ''1'' (Inr 1)) = 1"
    by (simp_all add: normalizeSlot_vercel_def normalizeSlot_main1_def normalizeSlot_main2_def
        numBadgeSlots_def)
  have s: "selectedFilename (select_vercel lcg [''x.gif''] 50 1) = Some ''x.gif''"
    "selectedFilename (select_main1 lcg [''x.gif''] 50 1) = Some ''x.gif''"
    "selectedFilename (select_main2 lcg [''x.gif''] 50 1) = Some ''x.gif''"
    by (simp_all add: select_single selectedFilename_def)
  have m: "statFile ?rq (filePathOf ''x.gif'') = Some NotExist"
    "allMissing (filePathOf ''x.gif'') = Some NotExist" "statFile ?rq = allMissing"
    by (simp_all add: requestAt_def allMissing_def)
  have f: "\<not> discoveryInterval < Since (nowSince ?rq) (lastDiscoveryTime ?st)"
    "\<not> discoveryInterval < Since 1000000000 0"
    by (simp_all add: requestAt_def Since_def discoveryInterval_def maxDuration_def)
  from missing_file_response [OF h, of lcg ?rq "''x.gif''"] b q n s m f
  show ?thesis by simp
qed

text \<open>
  C7 as stated fails in \<open>main1\<close> and \<open>main2\<close>: the catalog lists \<^verbatim>\<open>x.gif\<close>, the file
  is gone, and the response is 404 with the text \<^verbatim>\<open>404 page not found\<close>, which does not
  name the file.
\<close>

theorem missing_file_response_counterexample:
  "select_main1 lcg [''x.gif''] 50 1 = Inr ([], Inr ''x.gif'')
   \<and> allMissing (filePathOf ''x.gif'') = Some NotExist
   \<and> badgeHandler_main1 lcg (requestAt (Some ''1'') nestedDir allMissing)
        \<lparr>badgeFilesList = [''x.gif''], lastDiscoveryTime = 0\<rparr>
      = (\<lparr>badgeFilesList = [''x.gif''], lastDiscoveryTime = 0\<rparr>,
         [LogServing 1 50 ''badges/x.gif''],
         Inr (HttpError 404 ''404 page not found''))
   \<and> badgeHandler_main2 lcg (requestAt (Some ''1'') nestedDir allMissing)
        \<lparr>badgeFilesList = [''x.gif''], lastDiscoveryTime = 0\<rparr>
      = (\<lparr>badgeFilesList = [''x.gif''], lastDiscoveryTime = 0\<rparr>,
         [LogServing 1 50 ''badges/x.gif''],
         Inr (HttpError 404 ''404 page not found''))"
proof -
  have b: "baseSeedOf 100 = 50"
    by (simp add: baseSeedOf_def timeWindowSeconds_def signed_divide_int_def)
  have f: "\<not> discoveryInterval < Since 1000000000 0"
    by (simp add: Since_def discoveryInterval_def maxDuration_def)
  have n: "normalizeSlot_main1 (Inr 1) = 1" "normalizeSlot_main2 ''1'' (Inr 1) = ([], 1)"
    by (simp_all add: normalizeSlot_main1_def normalizeSlot_main2_def numBadgeSlots_def)
  show ?thesis
    by (simp add: badgeHandler_main1_def badgeHandler_main2_def requestAt_def queryGet_def
        Atoi_one b f n select_single filePathOf_def allMissing_def ServeFile_def Let_def)
qed

text \<open>
  C8. For a non-empty catalog and a slot of at least 1, the remainder
  \<open>(slot - 1) % N\<close> is computed without panic and lies in \<open>[0, N)\<close>, so the guard
  \<^verbatim>\<open>effectiveSlotIndex < len(tempIndices)\<close> holds: in the three variants the selection
  returns a catalog entry with an empty log, that is, neither through the fallback branch
  (which logs \<open>LogFallbackWarning\<close>) nor through a 500 branch.
\<close>

theorem defensive_branches_unreachable:
  assumes "badges \<noteq> []" "1 \<le> slot"
  shows "\<exists>e f. go_rem (slot - 1) (int (length badges)) = Inr e
           \<and> 0 \<le> e \<and> e < int (length badges)
           \<and> f \<in> set badges
           \<and> select_main1 g badges seed slot = Inr ([], Inr f)
           \<and> select_main2 g badges seed slot = Inr ([], Inr f)
           \<and> select_vercel g badges seed slot = Inr ([], Inr f)"
proof -
  from assms(1) have n: "0 < length badges" by simp
  obtain ys where ys: "Shuffle g seed (length badges) [0..<length badges] = Inr ys"
    "length ys = length badges" "set ys = {0..<length badges}"
    by (rule Shuffle_range [of g seed "length badges"])
  let ?f = "badges ! (ys ! nat ((slot - 1) mod int (length badges)))"
  have "?f \<in> set badges" using picked_in_range [OF assms ys(2,3)] by simp
  moreover have "0 \<le> (slot - 1) mod int (length badges)"
    "(slot - 1) mod int (length badges) < int (length badges)" using n by simp_all
  ultimately show ?thesis
    using go_rem_slot [OF assms(2) n] select_main1_pick [OF assms ys]
      select_vercel_pick [OF assms ys]
    by (simp add: select_main2_eq_main1)
qed

theorem defensive_branches_unreachable_witness:
  "[''a.gif'', ''b.png''] \<noteq> [] \<and> (1::int) \<le> 5
   \<and> go_rem (5 - 1) (int (length [''a.gif'', ''b.png''])) = Inr 0
   \<and> (\<exists>f. select_main1 lcg [''a.gif'', ''b.png''] 50 5 = Inr ([], Inr f)
          \<and> select_vercel lcg [''a.gif'', ''b.png''] 50 5 = Inr ([], Inr f))"
proof -
  have h: "[''a.gif'', ''b.png''] \<noteq> []" "(1::int) \<le> 5" by simp_all
  have r: "go_rem (5 - 1) (int (length [''a.gif'', ''b.png''])) = Inr 0"
    by (simp add: go_rem_def signed_modulo_int_def)
  from defensive_branches_unreachable [OF h, of lcg 50] h r show ?thesis by auto
qed

text \<open>
  C9 (as amended). For timestamps at or after the Unix epoch the seed is the timestamp
  divided by 2, rounded down; two such timestamps in the same 2-second window have the
  same seed, and two in different windows have different seeds.
\<close>

theorem seed_per_window:
  assumes "0 \<le> t1" "0 \<le> t2"
  shows "baseSeedOf t1 = t1 div 2
       \<and> (window_of t1 = window_of t2 \<longrightarrow> baseSeedOf t1 = baseSeedOf t2)
       \<and> (window_of t1 \<noteq> window_of t2 \<longrightarrow> baseSeedOf t1 \<noteq> baseSeedOf t2)"
  using assms by (simp add: baseSeedOf_nonneg window_of_def)

theorem seed_per_window_witness:
  "(0::int) \<le> 100 \<and> (0::int) \<le> 101 \<and> (0::int) \<le> 102
   \<and> window_of 100 = window_of 101 \<and> baseSeedOf 100 = baseSeedOf 101
   \<and> window_of 101 \<noteq> window_of 102 \<and> baseSeedOf 101 \<noteq> baseSeedOf 102"
proof -
  have h: "(0::int) \<le> 100" "(0::int) \<le> 101" "(0::int) \<le> 102" by simp_all
  have w: "window_of 100 = window_of 101" "window_of 101 \<noteq> window_of 102"
    by (simp_all add: window_of_def)
  from seed_per_window [OF h(1,2)] seed_per_window [OF h(2,3)] h w show ?thesis by simp
qed

text \<open>
  C9 as stated fails before the epoch, where Go's division rounds towards zero: the
  timestamps \<open>-1\<close> and \<open>1\<close> are two seconds apart, in different windows, and both have
  seed 0.
\<close>

theorem seed_per_window_counterexample:
  "window_of (- 1) \<noteq> window_of 1 \<and> baseSeedOf (- 1) = baseSeedOf 1
   \<and> window_of (- 1) \<noteq> window_of 0 \<and> baseSeedOf (- 1) = baseSeedOf 0"
  by (simp add: window_of_def baseSeedOf_def timeWindowSeconds_def signed_divide_int_def)

text \<open>
  C10. For every catalog, seed and slot the three variants select the same file name (or
  none: on an empty catalog \<open>main1\<close> and \<open>main2\<close> would divide by zero and \<open>vercel\<close>
  answers 500, and no handler reaches the selection with an empty catalog). \<open>main1\<close> and
  \<open>main2\<close> have the same statements; on a non-empty catalog the three results are equal,
  log included.
\<close>

theorem variants_select_alike:
  "selectedFilename (select_main1 g badges seed slot)
     = selectedFilename (select_vercel g badges seed slot)
   \<and> selectedFilename (select_main2 g badges seed slot)
     = selectedFilename (select_vercel g badges seed slot)
   \<and> select_main1 g badges seed slot = select_main2 g badges seed slot
   \<and> (badges \<noteq> [] \<longrightarrow>
        select_main1 g badges seed slot = select_vercel g badges seed slot
      \<and> select_main2 g badges seed slot = select_vercel g badges seed slot)"
proof (cases "badges = []")
  case True
  then show ?thesis by (simp add: select_empty selectedFilename_def)
next
  case False
  then show ?thesis by (simp add: select_vercel_eq_main1 select_main2_eq_main1)
qed

theorem variants_select_alike_witness:
  "[''a.gif'', ''b.png'', ''c.GIF''] \<noteq> []
   \<and> select_main1 lcg [''a.gif'', ''b.png'', ''c.GIF''] 50 2
       = select_vercel lcg [''a.gif'', ''b.png'', ''c.GIF''] 50 2
   \<and> select_main2 lcg [''a.gif'', ''b.png'', ''c.GIF''] 50 2
       = select_vercel lcg [''a.gif'', ''b.png'', ''c.GIF''] 50 2"
  using variants_select_alike [of lcg "[''a.gif'', ''b.png'', ''c.GIF'']" 50 2] by simp

end
